theory Spec2Isabelle
  imports Main "HOL-Library.Word" "HOL-Library.Multiset"
begin

section \<open>Machine integers and the packet\<close>

type_synonym u8 = "8 word"
type_synonym u16 = "16 word"
type_synonym u32 = "32 word"

text \<open>
  The generated protobuf headers are not part of the sources; the enumerations are
  modelled as datatypes holding the enumerators the code names, plus one constructor each
  for every other value.
\<close>

datatype meshtastic_MeshPacket_Priority =
  Priority_UNSET | Priority_MIN | Priority_BACKGROUND | Priority_DEFAULT
  | Priority_RELIABLE | Priority_ACK | Priority_MAX

datatype meshtastic_PortNum =
  PortNum_POSITION_APP | PortNum_EMERGENCY_APP | PortNum_TIME_WINDOW_APP | PortNum_OTHER nat

text \<open>
  \<open>which_payload_variant\<close> tags a union; \<open>decoded.portnum\<close> exists only under the
  \<open>decoded\<close> tag.
\<close>

datatype payload_variant = decoded_tag meshtastic_PortNum | encrypted_tag | no_payload_tag

record meshtastic_MeshPacket =
  packet_id :: u32
  want_ack :: bool
  priority :: meshtastic_MeshPacket_Priority
  which_payload_variant :: payload_variant
  payloadlen :: nat

text \<open>A \<open>meshtastic_MeshPacket*\<close>: \<open>None\<close> is \<open>nullptr\<close>.\<close>

type_synonym packet_ptr = "meshtastic_MeshPacket option"

datatype ErrorCode =
  ERRNO_OK | ERRNO_NO_RADIO | ERRNO_INVALID_LENGTH | ERRNO_INVALID_CONFIG | ERRNO_UNKNOWN

section \<open>TimeWindow.h, TimeWindow.cpp\<close>

datatype TimeWindowMode = DROP_PACKETS | QUEUE_PACKETS | RECEIVE_ONLY

record TimeWindowConfig =
  enabled :: bool
  start_hour :: u8
  start_minute :: u8
  end_hour :: u8
  end_minute :: u8
  window_mode :: TimeWindowMode
  max_queue_size :: u16
  packet_expiry_secs :: u32

text \<open>
  \<open>isTimeInWindow\<close>: the \<open>uint8_t\<close> fields are promoted to \<open>int\<close> before the
  arithmetic, so nothing wraps.
\<close>

definition isTimeInWindow :: "TimeWindowConfig \<Rightarrow> int \<Rightarrow> int \<Rightarrow> bool" where
  "isTimeInWindow cfg hour minute =
     (let current = hour * 60 + minute;
          start = uint (start_hour cfg) * 60 + uint (start_minute cfg);
          endt = uint (end_hour cfg) * 60 + uint (end_minute cfg)
      in if start \<le> endt
         then (current \<ge> start) \<and> (current < endt)
         else (current \<ge> start) \<or> (current < endt))"

text \<open>\<open>isTimeWindowActive\<close>; the argument is the value \<open>millis()\<close> returns.\<close>

definition isTimeWindowActive :: "TimeWindowConfig \<Rightarrow> u32 \<Rightarrow> bool" where
  "isTimeWindowActive cfg currentMillis =
     (if \<not> enabled cfg then True
      else
        let currentSeconds = currentMillis div 1000;
            currentHour = uint ((currentSeconds div 3600) mod 24);
            currentMinute = uint ((currentSeconds div 60) mod 60)
        in isTimeInWindow cfg currentHour currentMinute)"

section \<open>The node configuration read by RadioInterface\<close>

datatype meshtastic_TimeWindowMode =
  TimeWindowMode_DROP_PACKETS | TimeWindowMode_QUEUE_PACKETS
  | TimeWindowMode_RECEIVE_ONLY | TimeWindowMode_OTHER

text \<open>
  \<open>config.lora\<close>: the fields the time-window code reads. Their declaration is generated
  code outside the sources; the integer fields are taken as \<open>uint32_t\<close>.
\<close>

record LoRaConfig =
  time_window_enabled :: bool
  window_start_hour :: u32
  window_start_minute :: u32
  window_end_hour :: u32
  window_end_minute :: u32
  lora_window_mode :: meshtastic_TimeWindowMode
  window_queue_size :: u32
  window_packet_expire_secs :: u32

record meshtastic_Config =
  has_lora :: bool
  lora :: LoRaConfig

text \<open>
  \<open>RadioInterface::isOperationAllowed\<close> (RadioInterfaceTime.cpp); the second argument is
  the value \<open>millis()\<close> returns. The unsigned results are converted to \<open>int\<close>.
\<close>

definition isOperationAllowed :: "meshtastic_Config \<Rightarrow> u32 \<Rightarrow> bool" where
  "isOperationAllowed config ms =
     (if \<not> has_lora config \<or> \<not> time_window_enabled (lora config) then True
      else
        let now = ms div 1000;
            daySeconds = now mod (24 * 3600);
            currentHour = sint (daySeconds div 3600);
            currentMinute = sint ((daySeconds mod 3600) div 60);
            currentTime = currentHour * 60 + currentMinute;
            startTime = sint (window_start_hour (lora config) * 60
                              + window_start_minute (lora config));
            endTime = sint (window_end_hour (lora config) * 60
                            + window_end_minute (lora config));
            isInWindow =
              (if startTime \<le> endTime
               then (currentTime \<ge> startTime) \<and> (currentTime < endTime)
               else (currentTime \<ge> startTime) \<or> (currentTime < endTime))
        in isInWindow)"

section \<open>The window as the specification words it\<close>

text \<open>
  Minutes since midnight run over \<open>[0, 1440)\<close>. A same-day window is the half-open
  interval \<open>[start, end)\<close>; a window with \<open>start > end\<close> is
  \<open>[start, 1440) \<union> [0, end)\<close>.
\<close>

definition spec_window_open :: "int \<Rightarrow> int \<Rightarrow> int \<Rightarrow> bool" where
  "spec_window_open start endt current =
     (if start \<le> endt then current \<in> {start ..< endt}
      else current \<in> {start ..< 1440} \<union> {0 ..< endt})"

text \<open>The wall-clock minute of the day the firmware derives from \<open>millis()\<close>.\<close>

definition minute_of_day :: "u32 \<Rightarrow> int" where
  "minute_of_day ms = int (((unat ms div 1000) mod 86400) div 60)"

definition valid_window :: "LoRaConfig \<Rightarrow> bool" where
  "valid_window l =
     (window_start_hour l < 24 \<and> window_start_minute l < 60
      \<and> window_end_hour l < 24 \<and> window_end_minute l < 60)"

definition window_22_04 :: TimeWindowConfig where
  "window_22_04 =
     \<lparr>enabled = True, start_hour = 22, start_minute = 0, end_hour = 4, end_minute = 0,
      window_mode = RECEIVE_ONLY, max_queue_size = 32, packet_expiry_secs = 3600\<rparr>"

definition lora_22_04 :: meshtastic_Config where
  "lora_22_04 =
     \<lparr>has_lora = True,
      lora = \<lparr>time_window_enabled = True, window_start_hour = 22, window_start_minute = 0,
              window_end_hour = 4, window_end_minute = 0,
              lora_window_mode = TimeWindowMode_DROP_PACKETS,
              window_queue_size = 5, window_packet_expire_secs = 10\<rparr>\<rparr>"

section \<open>The packet pool\<close>

text \<open>
  \<open>packetPool.release(p)\<close> is recorded: the pool is the list of the pointers handed
  back so far, oldest first, so that a packet released twice occurs twice.
\<close>

type_synonym MemoryPool = "packet_ptr list"

definition release :: "MemoryPool \<Rightarrow> packet_ptr \<Rightarrow> MemoryPool" where
  "release pool p = pool @ [p]"

section \<open>PacketQueue.h\<close>

record QueueStats =
  totalQueued :: u32
  expiredPackets :: u32
  queueOverflows :: u32
  totalQueueTime :: u32
  maxQueueTime :: u32

text \<open>\<open>QueueStats::reset\<close>: \<open>memset(this, 0, sizeof(*this))\<close>.\<close>

definition QueueStats_reset :: "QueueStats \<Rightarrow> QueueStats" where
  "QueueStats_reset s =
     \<lparr>totalQueued = 0, expiredPackets = 0, queueOverflows = 0, totalQueueTime = 0,
      maxQueueTime = 0\<rparr>"

record QueuedPacket =
  packet :: packet_ptr
  enqueue_time :: u32

text \<open>
  The two queue classes have the same members; they differ in the element type and in
  the container, a \<open>std::vector\<close> or a \<open>std::priority_queue\<close>, both held as a list.
\<close>

record 'e queue_members =
  packets :: "'e list"
  stats :: QueueStats
  maxQueueSize :: nat
  packetExpirySeconds :: u32

type_synonym PacketQueue = "QueuedPacket queue_members"

definition new_queue :: "nat \<Rightarrow> u32 \<Rightarrow> 'e queue_members" where
  "new_queue maxSize expirySeconds =
     \<lparr>packets = [],
      stats = \<lparr>totalQueued = 0, expiredPackets = 0, queueOverflows = 0, totalQueueTime = 0,
               maxQueueTime = 0\<rparr>,
      maxQueueSize = maxSize, packetExpirySeconds = expirySeconds\<rparr>"

text \<open>
  Every member function that calls \<open>millis()\<close> calls it once; the value returned is the
  argument \<open>now\<close>.
\<close>

definition enqueue :: "PacketQueue \<Rightarrow> packet_ptr \<Rightarrow> u32 \<Rightarrow> bool \<times> PacketQueue" where
  "enqueue q p now =
     (if length (packets q) \<ge> maxQueueSize q
      then (False, q\<lparr>stats := (stats q)\<lparr>queueOverflows := queueOverflows (stats q) + 1\<rparr>\<rparr>)
      else (True, q\<lparr>packets := packets q @ [\<lparr>packet = p, enqueue_time = now\<rparr>],
                     stats := (stats q)\<lparr>totalQueued := totalQueued (stats q) + 1\<rparr>\<rparr>))"

definition record_queue_time :: "QueueStats \<Rightarrow> u32 \<Rightarrow> QueueStats" where
  "record_queue_time st queueTime =
     st\<lparr>totalQueueTime := totalQueueTime st + queueTime,
        maxQueueTime := max (maxQueueTime st) queueTime\<rparr>"

definition dequeue :: "PacketQueue \<Rightarrow> u32 \<Rightarrow> packet_ptr \<times> PacketQueue" where
  "dequeue q now =
     (case packets q of
        [] \<Rightarrow> (None, q)
      | front # rest \<Rightarrow>
          (let queueTime = (now - enqueue_time front) div 1000
           in (packet front,
               q\<lparr>packets := rest, stats := record_queue_time (stats q) queueTime\<rparr>)))"

text \<open>
  \<open>cleanExpired\<close>: the iterator walks the vector from the front; an expired element is
  counted, released and erased, any other is stepped over.
\<close>

fun cleanExpired_loop ::
  "u32 \<Rightarrow> u32 \<Rightarrow> QueuedPacket list \<Rightarrow> QueueStats \<Rightarrow> MemoryPool
   \<Rightarrow> QueuedPacket list \<times> QueueStats \<times> MemoryPool" where
  "cleanExpired_loop now expiry [] st pool = ([], st, pool)"
| "cleanExpired_loop now expiry (it # rest) st pool =
     (if (now - enqueue_time it) \<ge> (expiry * 1000)
      then cleanExpired_loop now expiry rest
             (st\<lparr>expiredPackets := expiredPackets st + 1\<rparr>) (release pool (packet it))
      else (case cleanExpired_loop now expiry rest st pool of
              (kept, st', pool') \<Rightarrow> (it # kept, st', pool')))"

definition cleanExpired :: "PacketQueue \<Rightarrow> u32 \<Rightarrow> MemoryPool \<Rightarrow> PacketQueue \<times> MemoryPool" where
  "cleanExpired q now pool =
     (case cleanExpired_loop now (packetExpirySeconds q) (packets q) (stats q) pool of
        (kept, st, pool') \<Rightarrow> (q\<lparr>packets := kept, stats := st\<rparr>, pool'))"

definition clear :: "PacketQueue \<Rightarrow> MemoryPool \<Rightarrow> PacketQueue \<times> MemoryPool" where
  "clear q pool = (q\<lparr>packets := []\<rparr>, foldl release pool (map packet (packets q)))"

definition queue_size :: "'e queue_members \<Rightarrow> nat" where
  "queue_size q = length (packets q)"

definition queue_empty :: "'e queue_members \<Rightarrow> bool" where
  "queue_empty q = (packets q = [])"

definition queue_full :: "'e queue_members \<Rightarrow> bool" where
  "queue_full q = (length (packets q) \<ge> maxQueueSize q)"

definition getAvgQueueTime :: "'e queue_members \<Rightarrow> u32" where
  "getAvgQueueTime q =
     (if totalQueued (stats q) \<noteq> 0 then totalQueueTime (stats q) div totalQueued (stats q)
      else 0)"

section \<open>PriorityPacketQueue.h\<close>

record PriorityQueuedPacket = QueuedPacket +
  entry_priority :: u8

definition calculatePriority :: "packet_ptr \<Rightarrow> u8" where
  "calculatePriority p =
     (case p of
        None \<Rightarrow> 0
      | Some pk \<Rightarrow>
          (let p1 = 1;
               p2 = (if want_ack pk then p1 + 2 else p1);
               p3 = (if priority pk = Priority_RELIABLE then p2 + 3
                     else if priority pk = Priority_ACK then p2 + 2 else p2)
           in case which_payload_variant pk of
                decoded_tag portnum \<Rightarrow>
                  (let p4 = (if portnum = PortNum_POSITION_APP then p3 + 1 else p3)
                   in if portnum = PortNum_EMERGENCY_APP then p4 + 4 else p4)
              | _ \<Rightarrow> p3))"

definition new_QueuedPacket :: "packet_ptr \<Rightarrow> u32 \<Rightarrow> PriorityQueuedPacket" where
  "new_QueuedPacket p time =
     \<lparr>packet = p, enqueue_time = time, entry_priority = calculatePriority p\<rparr>"

text \<open>\<open>operator<\<close> of the queue element.\<close>

definition less_QueuedPacket :: "PriorityQueuedPacket \<Rightarrow> PriorityQueuedPacket \<Rightarrow> bool" where
  "less_QueuedPacket a b = (entry_priority a < entry_priority b)"

text \<open>
  \<open>std::priority_queue\<close> is held as the list of its elements in the order they were
  pushed. \<open>top\<close> is an element no other element is greater than under \<open>operator<\<close>;
  which one among equal elements the standard leaves open, and the model takes the one
  pushed first. \<open>pop\<close> removes that element.
\<close>

fun pq_max :: "PriorityQueuedPacket \<Rightarrow> PriorityQueuedPacket list \<Rightarrow> PriorityQueuedPacket" where
  "pq_max best [] = best"
| "pq_max best (x # xs) = pq_max (if less_QueuedPacket best x then x else best) xs"

fun pq_top :: "PriorityQueuedPacket list \<Rightarrow> PriorityQueuedPacket option" where
  "pq_top [] = None"
| "pq_top (x # xs) = Some (pq_max x xs)"

definition pq_push :: "PriorityQueuedPacket \<Rightarrow> PriorityQueuedPacket list \<Rightarrow> PriorityQueuedPacket list" where
  "pq_push e xs = xs @ [e]"

definition pq_pop :: "PriorityQueuedPacket list \<Rightarrow> PriorityQueuedPacket list" where
  "pq_pop xs = (case pq_top xs of None \<Rightarrow> xs | Some t \<Rightarrow> remove1 t xs)"

type_synonym PriorityPacketQueue = "PriorityQueuedPacket queue_members"

definition pq_enqueue ::
  "PriorityPacketQueue \<Rightarrow> packet_ptr \<Rightarrow> u32 \<Rightarrow> bool \<times> PriorityPacketQueue" where
  "pq_enqueue q p now =
     (if length (packets q) \<ge> maxQueueSize q
      then (False, q\<lparr>stats := (stats q)\<lparr>queueOverflows := queueOverflows (stats q) + 1\<rparr>\<rparr>)
      else (True, q\<lparr>packets := pq_push (new_QueuedPacket p now) (packets q),
                     stats := (stats q)\<lparr>totalQueued := totalQueued (stats q) + 1\<rparr>\<rparr>))"

definition pq_dequeue :: "PriorityPacketQueue \<Rightarrow> u32 \<Rightarrow> packet_ptr \<times> PriorityPacketQueue" where
  "pq_dequeue q now =
     (case pq_top (packets q) of
        None \<Rightarrow> (None, q)
      | Some top_entry \<Rightarrow>
          (let queueTime = (now - enqueue_time top_entry) div 1000
           in (packet top_entry,
               q\<lparr>packets := pq_pop (packets q),
                  stats := record_queue_time (stats q) queueTime\<rparr>)))"

text \<open>
  \<open>cleanExpired\<close>: every element is taken from the top of \<open>packets\<close>; an expired one
  is counted and released, any other is pushed onto \<open>temp\<close>, which replaces \<open>packets\<close>
  when \<open>packets\<close> is empty.
\<close>

function pq_cleanExpired_loop ::
  "u32 \<Rightarrow> u32 \<Rightarrow> PriorityQueuedPacket list \<Rightarrow> PriorityQueuedPacket list \<Rightarrow> QueueStats
   \<Rightarrow> MemoryPool \<Rightarrow> PriorityQueuedPacket list \<times> QueueStats \<times> MemoryPool" where
  "pq_cleanExpired_loop now expiry pkts temp st pool =
     (case pq_top pkts of
        None \<Rightarrow> (temp, st, pool)
      | Some top_entry \<Rightarrow>
          (if (now - enqueue_time top_entry) \<ge> (expiry * 1000)
           then pq_cleanExpired_loop now expiry (pq_pop pkts) temp
                  (st\<lparr>expiredPackets := expiredPackets st + 1\<rparr>)
                  (release pool (packet top_entry))
           else pq_cleanExpired_loop now expiry (pq_pop pkts) (pq_push top_entry temp)
                  st pool))"
  by pat_completeness auto
termination
proof (relation "measure (\<lambda>(now, expiry, pkts, temp, st, pool). length pkts)")
  have mem: "pq_max b xs \<in> set (b # xs)" for b xs
    by (induction xs arbitrary: b) auto
  have dec: "length (pq_pop xs) < length xs" if "pq_top xs = Some t" for xs t
  proof (cases xs)
    case Nil
    with that show ?thesis by simp
  next
    case (Cons x ys)
    with that have "t \<in> set xs" using mem [of x ys] by auto
    then have "length (remove1 t xs) < length xs"
      by (simp add: length_remove1) (metis length_pos_if_in_set diff_Suc_less)
    with that show ?thesis by (simp add: pq_pop_def)
  qed
  show "wf (measure (\<lambda>(now, expiry, pkts, temp, st, pool). length pkts))" by simp
  show "\<And>now expiry pkts temp st pool x2.
          pq_top pkts = Some x2 \<Longrightarrow> expiry * 1000 \<le> now - enqueue_time x2 \<Longrightarrow>
          ((now, expiry, pq_pop pkts, temp, st\<lparr>expiredPackets := expiredPackets st + 1\<rparr>,
            release pool (packet x2)),
           now, expiry, pkts, temp, st, pool)
          \<in> measure (\<lambda>(now, expiry, pkts, temp, st, pool). length pkts)"
    using dec by simp
  show "\<And>now expiry pkts temp st pool x2.
          pq_top pkts = Some x2 \<Longrightarrow> \<not> expiry * 1000 \<le> now - enqueue_time x2 \<Longrightarrow>
          ((now, expiry, pq_pop pkts, pq_push x2 temp, st, pool),
           now, expiry, pkts, temp, st, pool)
          \<in> measure (\<lambda>(now, expiry, pkts, temp, st, pool). length pkts)"
    using dec by simp
qed

declare pq_cleanExpired_loop.simps [simp del]

definition pq_cleanExpired ::
  "PriorityPacketQueue \<Rightarrow> u32 \<Rightarrow> MemoryPool \<Rightarrow> PriorityPacketQueue \<times> MemoryPool" where
  "pq_cleanExpired q now pool =
     (case pq_cleanExpired_loop now (packetExpirySeconds q) (packets q) [] (stats q) pool of
        (temp, st, pool') \<Rightarrow> (q\<lparr>packets := temp, stats := st\<rparr>, pool'))"

text \<open>\<open>clear\<close>: the top element is released and popped until the queue is empty.\<close>

function pq_clear_loop ::
  "PriorityQueuedPacket list \<Rightarrow> MemoryPool \<Rightarrow> PriorityQueuedPacket list \<times> MemoryPool" where
  "pq_clear_loop pkts pool =
     (case pq_top pkts of
        None \<Rightarrow> (pkts, pool)
      | Some top_entry \<Rightarrow> pq_clear_loop (pq_pop pkts) (release pool (packet top_entry)))"
  by pat_completeness auto
termination
proof (relation "measure (\<lambda>(pkts, pool). length pkts)")
  have mem: "pq_max b xs \<in> set (b # xs)" for b xs
    by (induction xs arbitrary: b) auto
  have dec: "length (pq_pop xs) < length xs" if "pq_top xs = Some t" for xs t
  proof (cases xs)
    case Nil
    with that show ?thesis by simp
  next
    case (Cons x ys)
    with that have "t \<in> set xs" using mem [of x ys] by auto
    then have "length (remove1 t xs) < length xs"
      by (simp add: length_remove1) (metis length_pos_if_in_set diff_Suc_less)
    with that show ?thesis by (simp add: pq_pop_def)
  qed
  show "wf (measure (\<lambda>(pkts, pool). length pkts))" by simp
  show "\<And>pkts pool x2. pq_top pkts = Some x2 \<Longrightarrow>
          ((pq_pop pkts, release pool (packet x2)), pkts, pool)
          \<in> measure (\<lambda>(pkts, pool). length pkts)"
    using dec by simp
qed

declare pq_clear_loop.simps [simp del]

definition pq_clear :: "PriorityPacketQueue \<Rightarrow> MemoryPool \<Rightarrow> PriorityPacketQueue \<times> MemoryPool" where
  "pq_clear q pool =
     (case pq_clear_loop (packets q) pool of (pkts, pool') \<Rightarrow> (q\<lparr>packets := pkts\<rparr>, pool'))"

section \<open>RadioInterface: what the three source files share\<close>

text \<open>
  What the radio code takes from outside the sources: the clock behind \<open>millis()\<close>, given
  as the value of its k-th call; \<open>beginSending\<close> and \<open>sendTo\<close>, the latter given for
  each call of \<open>sendPacket\<close>, so that the radio may fail at one time and succeed at another;
  \<open>PriorityPacketQueue::getLastPriority\<close>, which RadioInterfaceQueue.cpp calls and no
  source file defines; and the two macros of RadioInterfaceQueue.cpp.
\<close>

record Env =
  clock :: "nat \<Rightarrow> u32"
  beginSending :: "meshtastic_MeshPacket \<Rightarrow> nat"
  sendTo :: "nat \<Rightarrow> meshtastic_MeshPacket \<Rightarrow> nat \<Rightarrow> ErrorCode"
  getLastPriority :: "PriorityQueuedPacket queue_members \<Rightarrow> u8"
  MAX_PACKETS_PER_CYCLE :: u32
  MIN_QUEUE_PROCESS_INTERVAL :: u32

text \<open>
  The state the radio code reads and writes: the global \<open>config\<close>, the member
  \<open>disabled\<close> and the global \<open>packetPool\<close>. Two fields are bookkeeping of the model:
  the calls of \<open>sendPacket\<close> made so far, each with the packet and the result, and the
  number of calls of \<open>millis()\<close> made so far.
\<close>

record RadioInterface =
  config :: meshtastic_Config
  disabled :: bool
  packetPool :: MemoryPool
  sendPacket_calls :: "(meshtastic_MeshPacket \<times> ErrorCode) list"
  millis_calls :: nat

definition millis :: "Env \<Rightarrow> 'a RadioInterface_scheme \<Rightarrow> u32 \<times> 'a RadioInterface_scheme" where
  "millis env r = (clock env (millis_calls r), r\<lparr>millis_calls := Suc (millis_calls r)\<rparr>)"

text \<open>
  The test \<open>config.has_lora && config.lora.time_window_enabled && !isOperationAllowed()\<close>
  of \<open>send\<close>; the clock is read only when the first two conjuncts hold.
\<close>

definition outside_window :: "Env \<Rightarrow> 'a RadioInterface_scheme \<Rightarrow> bool \<times> 'a RadioInterface_scheme" where
  "outside_window env r =
     (if has_lora (config r) \<and> time_window_enabled (lora (config r))
      then (case millis env r of (ms, r1) \<Rightarrow> (\<not> isOperationAllowed (config r) ms, r1))
      else (False, r))"

text \<open>
  \<open>RadioInterface::sendPacket\<close> (RadioInterface.cpp). It dereferences \<open>p\<close>, so the model
  takes the packet itself.
\<close>

definition sendPacket_body ::
  "Env \<Rightarrow> 'a RadioInterface_scheme \<Rightarrow> meshtastic_MeshPacket \<Rightarrow> ErrorCode \<times> 'a RadioInterface_scheme" where
  "sendPacket_body env r p =
     (if disabled r then (ERRNO_NO_RADIO, r\<lparr>packetPool := release (packetPool r) (Some p)\<rparr>)
      else if payloadlen p = 0
      then (ERRNO_INVALID_LENGTH, r\<lparr>packetPool := release (packetPool r) (Some p)\<rparr>)
      else
        (let numbytes = beginSending env p
         in if numbytes = 0 then (ERRNO_INVALID_LENGTH, r)
            else (sendTo env (length (sendPacket_calls r)) p numbytes, r)))"

text \<open>\<open>sendPacket\<close> with the call entered in the bookkeeping.\<close>

definition sendPacket ::
  "Env \<Rightarrow> 'a RadioInterface_scheme \<Rightarrow> meshtastic_MeshPacket \<Rightarrow> ErrorCode \<times> 'a RadioInterface_scheme" where
  "sendPacket env r p =
     (case sendPacket_body env r p of
        (result, r') \<Rightarrow> (result, r'\<lparr>sendPacket_calls := sendPacket_calls r' @ [(p, result)]\<rparr>))"

section \<open>RadioInterface.cpp: the arrival-order queue\<close>

record FifoRadio = RadioInterface +
  packetQueue :: PacketQueue

text \<open>The branch of \<open>processQueuedPackets\<close> taken when \<open>sendPacket\<close> fails.\<close>

definition fifo_requeue :: "Env \<Rightarrow> FifoRadio \<Rightarrow> meshtastic_MeshPacket \<Rightarrow> FifoRadio" where
  "fifo_requeue env r pk =
     (case millis env r of
        (ms, r1) \<Rightarrow>
          (case enqueue (packetQueue r1) (Some pk) ms of
             (ok, q') \<Rightarrow>
               if \<not> ok
               then r1\<lparr>packetQueue := q', packetPool := release (packetPool r1) (Some pk)\<rparr>
               else r1\<lparr>packetQueue := q'\<rparr>))"

function fifo_process_loop :: "Env \<Rightarrow> FifoRadio \<Rightarrow> FifoRadio" where
  "fifo_process_loop env r =
     (if queue_empty (packetQueue r) then r
      else
        (case millis env r of
           (ms, r1) \<Rightarrow>
             (case dequeue (packetQueue r1) ms of
                (pkt, q') \<Rightarrow>
                  (case pkt of
                     None \<Rightarrow> fifo_process_loop env (r1\<lparr>packetQueue := q'\<rparr>)
                   | Some pk \<Rightarrow>
                       (case sendPacket env (r1\<lparr>packetQueue := q'\<rparr>) pk of
                          (result, r2) \<Rightarrow>
                            if result \<noteq> ERRNO_OK then fifo_requeue env r2 pk
                            else fifo_process_loop env r2)))))"
  by pat_completeness auto
termination
  by (relation "measure (\<lambda>(env, r). length (packets (packetQueue r)))")
     (auto simp: millis_def dequeue_def sendPacket_def sendPacket_body_def queue_empty_def Let_def
           split: list.splits if_splits)

declare fifo_process_loop.simps [simp del]

definition fifo_processQueuedPackets :: "Env \<Rightarrow> FifoRadio \<Rightarrow> FifoRadio" where
  "fifo_processQueuedPackets env r =
     (if \<not> has_lora (config r) \<or> \<not> time_window_enabled (lora (config r)) then r
      else
        (case millis env r of
           (ms, r1) \<Rightarrow>
             (case cleanExpired (packetQueue r1) ms (packetPool r1) of
                (q', pool') \<Rightarrow>
                  fifo_process_loop env (r1\<lparr>packetQueue := q', packetPool := pool'\<rparr>))))"


definition fifo_clearPacketQueue :: "FifoRadio \<Rightarrow> FifoRadio" where
  "fifo_clearPacketQueue r =
     (case clear (packetQueue r) (packetPool r) of
        (q', pool') \<Rightarrow> r\<lparr>packetQueue := q', packetPool := pool'\<rparr>)"


section \<open>RadioInterfaceQueue.cpp: the priority queue\<close>

record QueueMetrics =
  lastProcessTime :: u32
  highPriorityCount :: u32
  normalPriorityCount :: u32
  dropCount :: u32

definition QueueMetrics_reset :: "QueueMetrics \<Rightarrow> QueueMetrics" where
  "QueueMetrics_reset m = m\<lparr>highPriorityCount := 0, normalPriorityCount := 0, dropCount := 0\<rparr>"

record PriorityRadio = RadioInterface +
  priorityQueue :: PriorityPacketQueue
  metrics :: QueueMetrics

definition maxProcessTime :: u32 where
  "maxProcessTime = 100"

text \<open>The branch of \<open>processQueuedPackets\<close> taken when \<open>sendPacket\<close> fails.\<close>

definition pq_requeue :: "Env \<Rightarrow> PriorityRadio \<Rightarrow> meshtastic_MeshPacket \<Rightarrow> PriorityRadio" where
  "pq_requeue env r pk =
     (case millis env r of
        (ms, r1) \<Rightarrow>
          (case pq_enqueue (priorityQueue r1) (Some pk) ms of
             (ok, q') \<Rightarrow>
               if \<not> ok
               then r1\<lparr>priorityQueue := q',
                       metrics := (metrics r1)\<lparr>dropCount := dropCount (metrics r1) + 1\<rparr>,
                       packetPool := release (packetPool r1) (Some pk)\<rparr>
               else r1\<lparr>priorityQueue := q'\<rparr>))"

text \<open>The branch taken when \<open>sendPacket\<close> returns \<open>ERRNO_OK\<close>, but for \<open>packetsProcessed++\<close>.\<close>

definition count_sent :: "PriorityRadio \<Rightarrow> bool \<Rightarrow> PriorityRadio" where
  "count_sent r isHighPriority =
     (if isHighPriority
      then r\<lparr>metrics := (metrics r)\<lparr>highPriorityCount := highPriorityCount (metrics r) + 1\<rparr>\<rparr>
      else r\<lparr>metrics := (metrics r)\<lparr>normalPriorityCount := normalPriorityCount (metrics r) + 1\<rparr>\<rparr>)"

text \<open>
  The loop of \<open>processQueuedPackets\<close>; it returns the state together with the local
  \<open>packetsProcessed\<close>. The three conjuncts of the loop condition are evaluated from left
  to right, so the clock is read only when the queue is not empty.
\<close>

function pq_process_loop ::
  "Env \<Rightarrow> u32 \<Rightarrow> PriorityRadio \<Rightarrow> u32 \<Rightarrow> PriorityRadio \<times> u32" where
  "pq_process_loop env startTime r packetsProcessed =
     (if queue_empty (priorityQueue r) then (r, packetsProcessed)
      else
        (case millis env r of
           (ms, r1) \<Rightarrow>
             if \<not> (ms - startTime < maxProcessTime) then (r1, packetsProcessed)
             else if \<not> (packetsProcessed < MAX_PACKETS_PER_CYCLE env) then (r1, packetsProcessed)
             else
               (case millis env r1 of
                  (ms2, r2) \<Rightarrow>
                    (case pq_dequeue (priorityQueue r2) ms2 of
                       (pkt, q') \<Rightarrow>
                         (case pkt of
                            None \<Rightarrow>
                              pq_process_loop env startTime (r2\<lparr>priorityQueue := q'\<rparr>)
                                packetsProcessed
                          | Some pk \<Rightarrow>
                              (let isHighPriority = getLastPriority env q' > 2
                               in case sendPacket env (r2\<lparr>priorityQueue := q'\<rparr>) pk of
                                    (result, r3) \<Rightarrow>
                                      if result = ERRNO_OK
                                      then pq_process_loop env startTime
                                             (count_sent r3 isHighPriority)
                                             (packetsProcessed + 1)
                                      else (pq_requeue env r3 pk, packetsProcessed)))))))"
  by pat_completeness auto
termination
proof (relation "measure (\<lambda>(env, startTime, r, packetsProcessed). length (packets (priorityQueue r)))")
  have mem: "pq_max b xs \<in> set (b # xs)" for b xs
    by (induction xs arbitrary: b) auto
  have dec: "length (pq_pop xs) < length xs" if "xs \<noteq> []" for xs
  proof (cases xs)
    case Nil
    with that show ?thesis by simp
  next
    case (Cons x ys)
    then have "pq_max x ys \<in> set xs" using mem [of x ys] by auto
    then have "length (remove1 (pq_max x ys) xs) < length xs"
      by (simp add: length_remove1) (metis length_pos_if_in_set diff_Suc_less)
    with Cons show ?thesis by (simp add: pq_pop_def)
  qed
  have deq: "length (packets (snd (pq_dequeue q now))) < length (packets q)"
    if "packets q \<noteq> []" for q now
    using that dec [of "packets q"]
    by (cases "packets q") (simp_all add: pq_dequeue_def Let_def)
  show "wf (measure (\<lambda>(env, startTime, r, packetsProcessed). length (packets (priorityQueue r))))"
    by simp
  show "\<And>env startTime (r::PriorityRadio) packetsProcessed x y xa ya xb yb.
       \<not> queue_empty (priorityQueue r) \<Longrightarrow>
       (x, y) = millis env r \<Longrightarrow>
       \<not> \<not> x - startTime < maxProcessTime \<Longrightarrow>
       \<not> \<not> packetsProcessed < MAX_PACKETS_PER_CYCLE env \<Longrightarrow>
       (xa, ya) = millis env y \<Longrightarrow>
       (xb, yb) = pq_dequeue (priorityQueue ya) xa \<Longrightarrow>
       xb = None \<Longrightarrow>
       ((env, startTime, ya\<lparr>priorityQueue := yb\<rparr>, packetsProcessed), env, startTime, r, packetsProcessed)
       \<in> measure (\<lambda>(env, startTime, r, packetsProcessed). length (packets (priorityQueue r)))"
  proof -
    fix env startTime and r :: PriorityRadio and packetsProcessed x y xa ya xb yb
    assume a: "\<not> queue_empty (priorityQueue r)" "(x, y) = millis env r" "(xa, ya) = millis env y"
      "(xb, yb) = pq_dequeue (priorityQueue ya) xa"
    have "priorityQueue ya = priorityQueue r" using a(2,3) by (auto simp: millis_def)
    moreover have "yb = snd (pq_dequeue (priorityQueue ya) xa)" using a(4) by (metis snd_conv)
    ultimately show "((env, startTime, ya\<lparr>priorityQueue := yb\<rparr>, packetsProcessed), env, startTime, r, packetsProcessed)
       \<in> measure (\<lambda>(env, startTime, r, packetsProcessed). length (packets (priorityQueue r)))"
      using a(1) deq [of "priorityQueue r" xa] by (simp add: queue_empty_def)
  qed
  show "\<And>env startTime (r::PriorityRadio) packetsProcessed x y xa ya xb yb x2 xc xd yd.
       \<not> queue_empty (priorityQueue r) \<Longrightarrow>
       (x, y) = millis env r \<Longrightarrow>
       \<not> \<not> x - startTime < maxProcessTime \<Longrightarrow>
       \<not> \<not> packetsProcessed < MAX_PACKETS_PER_CYCLE env \<Longrightarrow>
       (xa, ya) = millis env y \<Longrightarrow>
       (xb, yb) = pq_dequeue (priorityQueue ya) xa \<Longrightarrow>
       xb = Some x2 \<Longrightarrow>
       xc = (2 < getLastPriority env yb) \<Longrightarrow>
       (xd, yd) = sendPacket env (ya\<lparr>priorityQueue := yb\<rparr>) x2 \<Longrightarrow>
       xd = ERRNO_OK \<Longrightarrow>
       ((env, startTime, count_sent yd xc, packetsProcessed + 1), env, startTime, r, packetsProcessed)
       \<in> measure (\<lambda>(env, startTime, r, packetsProcessed). length (packets (priorityQueue r)))"
  proof -
    fix env startTime and r :: PriorityRadio and packetsProcessed x y xa ya xb yb x2 xc xd yd
    assume a: "\<not> queue_empty (priorityQueue r)" "(x, y) = millis env r" "(xa, ya) = millis env y"
      "(xb, yb) = pq_dequeue (priorityQueue ya) xa"
      "(xd, yd) = sendPacket env (ya\<lparr>priorityQueue := yb\<rparr>) x2"
    have "priorityQueue ya = priorityQueue r" using a(2,3) by (auto simp: millis_def)
    moreover have "yb = snd (pq_dequeue (priorityQueue ya) xa)" using a(4) by (metis snd_conv)
    moreover have "priorityQueue yd = yb"
      using a(5) by (auto simp: sendPacket_def sendPacket_body_def Let_def split: if_splits)
    ultimately show "((env, startTime, count_sent yd xc, packetsProcessed + 1), env, startTime, r, packetsProcessed)
       \<in> measure (\<lambda>(env, startTime, r, packetsProcessed). length (packets (priorityQueue r)))"
      using a(1) deq [of "priorityQueue r" xa] by (simp add: queue_empty_def count_sent_def)
  qed
qed

declare pq_process_loop.simps [simp del]

text \<open>\<open>processQueuedPackets\<close>, returning the final value of \<open>packetsProcessed\<close> as well.\<close>

definition pq_processQueuedPackets_count :: "Env \<Rightarrow> PriorityRadio \<Rightarrow> PriorityRadio \<times> u32" where
  "pq_processQueuedPackets_count env r =
     (if \<not> has_lora (config r) \<or> \<not> time_window_enabled (lora (config r)) then (r, 0)
      else
        (case millis env r of
           (ms, r1) \<Rightarrow>
             (case pq_cleanExpired (priorityQueue r1) ms (packetPool r1) of
                (q', pool') \<Rightarrow>
                  (case millis env (r1\<lparr>priorityQueue := q', packetPool := pool'\<rparr>) of
                     (startTime, r2) \<Rightarrow> pq_process_loop env startTime r2 0))))"

definition pq_processQueuedPackets :: "Env \<Rightarrow> PriorityRadio \<Rightarrow> PriorityRadio" where
  "pq_processQueuedPackets env r = fst (pq_processQueuedPackets_count env r)"



definition pq_clearPacketQueue :: "PriorityRadio \<Rightarrow> PriorityRadio" where
  "pq_clearPacketQueue r =
     (case pq_clear (priorityQueue r) (packetPool r) of
        (q', pool') \<Rightarrow>
          r\<lparr>priorityQueue := q', packetPool := pool', metrics := QueueMetrics_reset (metrics r)\<rparr>)"


section \<open>RadioInterfaceTime.cpp: the queue held in the radio object\<close>

record TimeRadio = RadioInterface +
  packetQueue_member :: "QueuedPacket list"

fun time_clean_loop ::
  "u32 \<Rightarrow> u32 \<Rightarrow> QueuedPacket list \<Rightarrow> MemoryPool \<Rightarrow> QueuedPacket list \<times> MemoryPool" where
  "time_clean_loop now expire [] pool = ([], pool)"
| "time_clean_loop now expire (it # rest) pool =
     (let age = now - enqueue_time it
      in if age \<ge> (expire * 1000)
         then time_clean_loop now expire rest (release pool (packet it))
         else (case time_clean_loop now expire rest pool of
                 (kept, pool') \<Rightarrow> (it # kept, pool')))"

definition cleanExpiredPackets :: "Env \<Rightarrow> TimeRadio \<Rightarrow> TimeRadio" where
  "cleanExpiredPackets env r =
     (if \<not> has_lora (config r) \<or> \<not> time_window_enabled (lora (config r)) then r
      else
        (case millis env r of
           (now, r1) \<Rightarrow>
             (case time_clean_loop now (window_packet_expire_secs (lora (config r1)))
                     (packetQueue_member r1) (packetPool r1) of
                (kept, pool') \<Rightarrow> r1\<lparr>packetQueue_member := kept, packetPool := pool'\<rparr>)))"

text \<open>
  In this file \<open>send\<close> ends in \<open>return RadioInterface::send(p)\<close>, a call of itself, and
  \<open>processQueuedPackets\<close> calls \<open>send\<close> for the packet at the front. Nothing bounds the
  depth of these calls, so the three functions take a bound on it: \<open>None\<close> says that the
  calls did not return within the bound. \<open>send\<close> here never dereferences \<open>p\<close>. Erasing
  the first element of an empty vector is undefined; the model does not return from it.
\<close>

fun time_send :: "nat \<Rightarrow> Env \<Rightarrow> TimeRadio \<Rightarrow> packet_ptr \<Rightarrow> (ErrorCode \<times> TimeRadio) option"
  and time_processQueuedPackets :: "nat \<Rightarrow> Env \<Rightarrow> TimeRadio \<Rightarrow> TimeRadio option"
  and time_process_loop :: "nat \<Rightarrow> Env \<Rightarrow> TimeRadio \<Rightarrow> TimeRadio option" where
  "time_send 0 env r p = None"
| "time_send (Suc n) env r p =
     (if has_lora (config r) \<and> time_window_enabled (lora (config r))
      then
        (case millis env r of
           (ms, r1) \<Rightarrow>
             if \<not> isOperationAllowed (config r1) ms
             then
               (case lora_window_mode (lora (config r1)) of
                  TimeWindowMode_DROP_PACKETS \<Rightarrow>
                    Some (ERRNO_NO_RADIO, r1\<lparr>packetPool := release (packetPool r1) p\<rparr>)
                | TimeWindowMode_QUEUE_PACKETS \<Rightarrow>
                    if length (packetQueue_member r1) \<ge> unat (window_queue_size (lora (config r1)))
                    then Some (ERRNO_NO_RADIO, r1\<lparr>packetPool := release (packetPool r1) p\<rparr>)
                    else
                      (case millis env r1 of
                         (t, r2) \<Rightarrow>
                           Some (ERRNO_OK,
                                 r2\<lparr>packetQueue_member :=
                                      packetQueue_member r2 @ [\<lparr>packet = p, enqueue_time = t\<rparr>]\<rparr>))
                | TimeWindowMode_RECEIVE_ONLY \<Rightarrow>
                    Some (ERRNO_NO_RADIO, r1\<lparr>packetPool := release (packetPool r1) p\<rparr>)
                | TimeWindowMode_OTHER \<Rightarrow> Some (ERRNO_INVALID_CONFIG, r1))
             else
               (case time_processQueuedPackets n env r1 of
                  None \<Rightarrow> None
                | Some r2 \<Rightarrow> time_send n env r2 p))
      else time_send n env r p)"
| "time_processQueuedPackets 0 env r = None"
| "time_processQueuedPackets (Suc n) env r =
     (if \<not> has_lora (config r) \<or> \<not> time_window_enabled (lora (config r)) then Some r
      else
        (case millis env r of
           (ms, r1) \<Rightarrow>
             if \<not> isOperationAllowed (config r1) ms then Some r1
             else time_process_loop n env (cleanExpiredPackets env r1)))"
| "time_process_loop 0 env r = None"
| "time_process_loop (Suc n) env r =
     (case packetQueue_member r of
        [] \<Rightarrow> Some r
      | qp # rest \<Rightarrow>
          (case time_send n env r (packet qp) of
             None \<Rightarrow> None
           | Some (result, r1) \<Rightarrow>
               if result = ERRNO_OK
               then
                 (case packetQueue_member r1 of
                    [] \<Rightarrow> None
                  | front # rest1 \<Rightarrow> time_process_loop n env (r1\<lparr>packetQueue_member := rest1\<rparr>))
               else Some r1))"

section \<open>TimeWindowPlugin.h, TimeWindowPlugin.cpp\<close>









section \<open>Notions used to state the queue properties\<close>

text \<open>
  The expiry test both \<open>cleanExpired\<close> loops apply to an element, in the unsigned 32-bit
  arithmetic of the code: the age \<open>now - enqueue_time\<close> and the threshold
  \<open>packetExpirySeconds * 1000\<close> are \<open>uint32_t\<close> values.
\<close>

definition expired_at :: "u32 \<Rightarrow> u32 \<Rightarrow> 'a QueuedPacket_scheme \<Rightarrow> bool" where
  "expired_at now expiry e = (now - enqueue_time e \<ge> expiry * 1000)"

definition test_packet :: "nat \<Rightarrow> meshtastic_MeshPacket" where
  "test_packet i =
     \<lparr>packet_id = of_nat i, want_ack = False, priority = Priority_DEFAULT,
      which_payload_variant = no_payload_tag, payloadlen = 1\<rparr>"

text \<open>Enqueueing a list of packets one after the other, whatever each call returns.\<close>

fun enqueue_all :: "PacketQueue \<Rightarrow> packet_ptr list \<Rightarrow> u32 \<Rightarrow> PacketQueue" where
  "enqueue_all q [] now = q"
| "enqueue_all q (p # ps) now = enqueue_all (snd (enqueue q p now)) ps now"

fun pq_enqueue_all :: "PriorityPacketQueue \<Rightarrow> packet_ptr list \<Rightarrow> u32 \<Rightarrow> PriorityPacketQueue" where
  "pq_enqueue_all q [] now = q"
| "pq_enqueue_all q (p # ps) now = pq_enqueue_all (snd (pq_enqueue q p now)) ps now"

definition seven_packets :: "packet_ptr list" where
  "seven_packets = map (\<lambda>i. Some (test_packet i)) [0, 1, 2, 3, 4, 5, 6]"

definition five_packets :: "packet_ptr list" where
  "five_packets = map (\<lambda>i. Some (test_packet i)) [0, 1, 2, 3, 4]"

text \<open>The packets returned by \<open>n\<close> successive calls of \<open>dequeue\<close>.\<close>

fun pq_dequeue_n :: "nat \<Rightarrow> PriorityPacketQueue \<Rightarrow> u32 \<Rightarrow> packet_ptr list" where
  "pq_dequeue_n 0 q now = []"
| "pq_dequeue_n (Suc n) q now =
     fst (pq_dequeue q now) # pq_dequeue_n n (snd (pq_dequeue q now)) now"

text \<open>Packets of score 2, 5, 1 and 4.\<close>

definition packet_score2 :: meshtastic_MeshPacket where
  "packet_score2 = (test_packet 2)\<lparr>which_payload_variant := decoded_tag PortNum_POSITION_APP\<rparr>"

definition packet_score5 :: meshtastic_MeshPacket where
  "packet_score5 = (test_packet 5)\<lparr>which_payload_variant := decoded_tag PortNum_EMERGENCY_APP\<rparr>"

definition packet_score1 :: meshtastic_MeshPacket where
  "packet_score1 = test_packet 1"

definition packet_score4 :: meshtastic_MeshPacket where
  "packet_score4 = (test_packet 4)\<lparr>priority := Priority_RELIABLE\<rparr>"

section \<open>Notions used to state the drain properties\<close>

text \<open>Every call in a list of \<open>sendPacket\<close> calls returned \<open>ERRNO_OK\<close>.\<close>

definition all_ok :: "(meshtastic_MeshPacket \<times> ErrorCode) list \<Rightarrow> bool" where
  "all_ok calls = list_all (\<lambda>x. snd x = ERRNO_OK) calls"

text \<open>
  The first statement of the loop body of \<open>processQueuedPackets\<close>: the \<open>dequeue\<close>, with the
  clock read in it (RadioInterface.cpp), and in RadioInterfaceQueue.cpp after the clock
  read of the loop condition.
\<close>

definition fifo_next :: "Env \<Rightarrow> FifoRadio \<Rightarrow> packet_ptr \<times> FifoRadio" where
  "fifo_next env r =
     (case millis env r of
        (ms, r1) \<Rightarrow>
          (case dequeue (packetQueue r1) ms of (pkt, q') \<Rightarrow> (pkt, r1\<lparr>packetQueue := q'\<rparr>)))"

definition pq_next :: "Env \<Rightarrow> PriorityRadio \<Rightarrow> packet_ptr \<times> PriorityRadio" where
  "pq_next env r =
     (case millis env r of
        (ms, r1) \<Rightarrow>
          (case millis env r1 of
             (ms2, r2) \<Rightarrow>
               (case pq_dequeue (priorityQueue r2) ms2 of
                  (pkt, q') \<Rightarrow> (pkt, r2\<lparr>priorityQueue := q'\<rparr>))))"

text \<open>The two budgets of the loop condition of RadioInterfaceQueue.cpp.\<close>

definition budget_left :: "Env \<Rightarrow> u32 \<Rightarrow> PriorityRadio \<Rightarrow> u32 \<Rightarrow> bool" where
  "budget_left env startTime r packetsProcessed =
     (clock env (millis_calls r) - startTime < maxProcessTime
      \<and> packetsProcessed < MAX_PACKETS_PER_CYCLE env)"

definition config_21_23 :: meshtastic_Config where
  "config_21_23 =
     \<lparr>has_lora = True,
      lora = \<lparr>time_window_enabled = True, window_start_hour = 21, window_start_minute = 0,
              window_end_hour = 23, window_end_minute = 0,
              lora_window_mode = TimeWindowMode_DROP_PACKETS,
              window_queue_size = 5, window_packet_expire_secs = 3600\<rparr>\<rparr>"

text \<open>
  A radio that accepts every packet, at a clock that stands at \<open>ms\<close> milliseconds.
\<close>

definition env_at :: "u32 \<Rightarrow> Env" where
  "env_at ms =
     \<lparr>clock = (\<lambda>k. ms), beginSending = (\<lambda>p. payloadlen p + 16),
      sendTo = (\<lambda>k p numbytes. ERRNO_OK), getLastPriority = (\<lambda>q. 0),
      MAX_PACKETS_PER_CYCLE = 5, MIN_QUEUE_PROCESS_INTERVAL = 1000\<rparr>"

definition fifo_radio :: "meshtastic_Config \<Rightarrow> PacketQueue \<Rightarrow> FifoRadio" where
  "fifo_radio cfg q =
     \<lparr>config = cfg, disabled = False, packetPool = [], sendPacket_calls = [], millis_calls = 0,
      packetQueue = q\<rparr>"

definition priority_radio :: "meshtastic_Config \<Rightarrow> PriorityPacketQueue \<Rightarrow> PriorityRadio" where
  "priority_radio cfg q =
     \<lparr>config = cfg, disabled = False, packetPool = [], sendPacket_calls = [], millis_calls = 0,
      priorityQueue = q,
      metrics = \<lparr>lastProcessTime = 0, highPriorityCount = 0, normalPriorityCount = 0,
                 dropCount = 0\<rparr>\<rparr>"

definition time_radio :: "meshtastic_Config \<Rightarrow> QueuedPacket list \<Rightarrow> TimeRadio" where
  "time_radio cfg q =
     \<lparr>config = cfg, disabled = False, packetPool = [], sendPacket_calls = [], millis_calls = 0,
      packetQueue_member = q\<rparr>"

definition one_queued :: PacketQueue where
  "one_queued = snd (enqueue (new_queue 32 3600) (Some (test_packet 1)) 53000000)"

definition pq_one_queued :: PriorityPacketQueue where
  "pq_one_queued = snd (pq_enqueue (new_queue 32 3600) (Some (test_packet 1)) 53000000)"

text \<open>The number of calls in a list of \<open>sendPacket\<close> calls that returned \<open>ERRNO_OK\<close>.\<close>

definition ok_count :: "(meshtastic_MeshPacket \<times> ErrorCode) list \<Rightarrow> nat" where
  "ok_count calls = length (filter (\<lambda>x. snd x = ERRNO_OK) calls)"

text \<open>A radio whose \<open>sendTo\<close> fails every time, at a clock that stands at \<open>ms\<close>.\<close>

definition env_failing :: "u32 \<Rightarrow> Env" where
  "env_failing ms = (env_at ms)\<lparr>sendTo := (\<lambda>k p numbytes. ERRNO_UNKNOWN)\<rparr>"

text \<open>A clock that shows one millisecond before 23:00 when first read and 23:00 from then on.\<close>

definition env_turning_23h :: Env where
  "env_turning_23h = (env_at 82800000)\<lparr>clock := (\<lambda>k. if k = 0 then 82799999 else 82800000)\<rparr>"

text \<open>A clock that starts at 22:00 and shows one second more each time it is read.\<close>

definition env_slow :: Env where
  "env_slow = (env_at 79200000)\<lparr>clock := (\<lambda>k. 79200000 + 1000 * of_nat k)\<rparr>"

definition three_packets :: "packet_ptr list" where
  "three_packets = map (\<lambda>i. Some (test_packet i)) [0, 1, 2]"






section \<open>Notions used to state the statistics properties\<close>

text \<open>
  The operations on the queue of a radio, each reading the clock where the member
  function does; \<open>Op_clear\<close> is \<open>clearPacketQueue\<close> and \<open>Op_drain\<close> is
  \<open>processQueuedPackets\<close>.
\<close>

datatype queue_op = Op_enqueue packet_ptr | Op_dequeue | Op_cleanExpired | Op_clear | Op_drain

definition fifo_apply :: "Env \<Rightarrow> FifoRadio \<Rightarrow> queue_op \<Rightarrow> FifoRadio" where
  "fifo_apply env r op =
     (case op of
        Op_enqueue p \<Rightarrow>
          (case millis env r of
             (ms, r1) \<Rightarrow> r1\<lparr>packetQueue := snd (enqueue (packetQueue r1) p ms)\<rparr>)
      | Op_dequeue \<Rightarrow>
          (case millis env r of
             (ms, r1) \<Rightarrow> r1\<lparr>packetQueue := snd (dequeue (packetQueue r1) ms)\<rparr>)
      | Op_cleanExpired \<Rightarrow>
          (case millis env r of
             (ms, r1) \<Rightarrow>
               (case cleanExpired (packetQueue r1) ms (packetPool r1) of
                  (q', pool') \<Rightarrow> r1\<lparr>packetQueue := q', packetPool := pool'\<rparr>))
      | Op_clear \<Rightarrow> fifo_clearPacketQueue r
      | Op_drain \<Rightarrow> fifo_processQueuedPackets env r)"

definition pq_apply :: "Env \<Rightarrow> PriorityRadio \<Rightarrow> queue_op \<Rightarrow> PriorityRadio" where
  "pq_apply env r op =
     (case op of
        Op_enqueue p \<Rightarrow>
          (case millis env r of
             (ms, r1) \<Rightarrow> r1\<lparr>priorityQueue := snd (pq_enqueue (priorityQueue r1) p ms)\<rparr>)
      | Op_dequeue \<Rightarrow>
          (case millis env r of
             (ms, r1) \<Rightarrow> r1\<lparr>priorityQueue := snd (pq_dequeue (priorityQueue r1) ms)\<rparr>)
      | Op_cleanExpired \<Rightarrow>
          (case millis env r of
             (ms, r1) \<Rightarrow>
               (case pq_cleanExpired (priorityQueue r1) ms (packetPool r1) of
                  (q', pool') \<Rightarrow> r1\<lparr>priorityQueue := q', packetPool := pool'\<rparr>))
      | Op_clear \<Rightarrow> pq_clearPacketQueue r
      | Op_drain \<Rightarrow> pq_processQueuedPackets env r)"

definition fifo_run :: "Env \<Rightarrow> FifoRadio \<Rightarrow> queue_op list \<Rightarrow> FifoRadio" where
  "fifo_run env r ops = foldl (fifo_apply env) r ops"

definition pq_run :: "Env \<Rightarrow> PriorityRadio \<Rightarrow> queue_op list \<Rightarrow> PriorityRadio" where
  "pq_run env r ops = foldl (pq_apply env) r ops"

text \<open>
  The three counters of a queue and its occupancy, and how one operation may move them:
  \<open>totalQueued\<close> and \<open>queueOverflows\<close> stay or grow by one, \<open>expiredPackets\<close> grows by
  the number of entries evicted, and the occupancy grows by at most one entry beyond
  those evicted. The additions are those of \<open>uint32_t\<close>.
\<close>

type_synonym counters = "u32 \<times> u32 \<times> u32 \<times> nat"

definition queue_counters :: "'e queue_members \<Rightarrow> counters" where
  "queue_counters q =
     (totalQueued (stats q), expiredPackets (stats q), queueOverflows (stats q),
      length (packets q))"

definition counters_step :: "counters \<Rightarrow> counters \<Rightarrow> bool" where
  "counters_step c c' =
     (case c of
        (tq, ex, ov, n) \<Rightarrow>
          (case c' of
             (tq', ex', ov', n') \<Rightarrow>
               (tq' = tq \<or> tq' = tq + 1) \<and> (ov' = ov \<or> ov' = ov + 1)
               \<and> (\<exists>k \<in> {..n}. ex' = ex + of_nat k \<and> n' + k \<le> n + 1)))"

definition loop_step :: "counters \<Rightarrow> counters \<Rightarrow> bool" where
  "loop_step c c' =
     (case c of
        (tq, ex, ov, n) \<Rightarrow>
          (case c' of
             (tq', ex', ov', n') \<Rightarrow>
               (tq' = tq \<or> tq' = tq + 1) \<and> (ov' = ov \<or> ov' = ov + 1)
               \<and> ex' = ex \<and> n' \<le> n))"

definition queue_at_max :: PacketQueue where
  "queue_at_max =
     (new_queue 5 10)
       \<lparr>stats := \<lparr>totalQueued = 4294967295, expiredPackets = 0, queueOverflows = 0,
                   totalQueueTime = 0, maxQueueTime = 0\<rparr>\<rparr>"

(*DEFS-END*)

section \<open>The window check\<close>

lemma sint_small: "unat (w::u32) < 2 ^ 31 \<Longrightarrow> sint w = int (unat w)"
proof -
  assume a: "unat w < 2 ^ 31"
  have u: "uint w < 2 ^ 31"
    using a by (metis of_nat_less_iff of_nat_numeral of_nat_power uint_nat)
  have "- (2 ^ 31) \<le> uint w"
    by (rule order_trans [of _ 0]) simp_all
  then have "signed_take_bit 31 (uint w) = uint w"
    using u by (rule signed_take_bit_int_eq_self)
  then show ?thesis
    by (simp add: sint_uint)
qed

lemma day_minute: "(ds div 3600) * 60 + (ds mod 3600) div 60 = (ds::nat) div 60"
proof -
  have "ds = ds mod 3600 + 60 * (60 * (ds div 3600))"
    using div_mult_mod_eq [of ds 3600] by simp
  then have "ds div 60 = (ds mod 3600 + 60 * (60 * (ds div 3600))) div 60"
    by simp
  also have "\<dots> = 60 * (ds div 3600) + (ds mod 3600) div 60"
    by (simp only: div_mult_self2 [of 60])
  finally show ?thesis by simp
qed

lemma sint_start:
  assumes "(h::u32) < 24" "(m::u32) < 60"
  shows "sint (h * 60 + m) = uint h * 60 + uint m"
proof -
  have h: "unat h < 24" using assms(1) by (simp add: word_less_nat_alt)
  have m: "unat m < 60" using assms(2) by (simp add: word_less_nat_alt)
  have e: "unat (h * 60 + m) = unat h * 60 + unat m"
    using h m by (simp add: unat_word_ariths)
  have "unat (h * 60 + m) < 2 ^ 31" using h m e by simp
  then have "sint (h * 60 + m) = int (unat h * 60 + unat m)"
    using e by (simp add: sint_small)
  then show ?thesis by simp
qed

lemma current_time:
  "sint (((ms::u32) div 1000 mod (24 * 3600)) div 3600) * 60
   + sint (((ms div 1000 mod (24 * 3600)) mod 3600) div 60) = minute_of_day ms"
proof -
  define ds where "ds = (unat ms div 1000) mod 86400"
  have lt: "ds < 86400" by (simp add: ds_def)
  have h: "unat ((ms div 1000 mod (24 * 3600)) div 3600) = ds div 3600"
    by (simp add: unat_div unat_mod ds_def)
  have m: "unat (((ms div 1000 mod (24 * 3600)) mod 3600) div 60) = (ds mod 3600) div 60"
    by (simp add: unat_div unat_mod ds_def)
  have "ds div 3600 < 2 ^ 31" "(ds mod 3600) div 60 < 2 ^ 31"
    using lt by simp_all
  then have s: "sint ((ms div 1000 mod (24 * 3600)) div 3600) = int (ds div 3600)"
       "sint (((ms div 1000 mod (24 * 3600)) mod 3600) div 60) = int ((ds mod 3600) div 60)"
    using h m by (simp_all only: sint_small)
  have "int (ds div 3600) * 60 + int ((ds mod 3600) div 60) = int (ds div 60)"
    using day_minute [of ds] by (metis of_nat_add of_nat_mult of_nat_numeral)
  then show ?thesis
    unfolding minute_of_day_def s ds_def [symmetric] .
qed

lemma minute_of_day_range: "0 \<le> minute_of_day ms" "minute_of_day ms < 1440"
  by (simp_all add: minute_of_day_def del: of_nat_div of_nat_mod)

lemma spec_open_iff:
  "0 \<le> c \<Longrightarrow> c < 1440 \<Longrightarrow>
   spec_window_open s e c = (if s \<le> e then s \<le> c \<and> c < e else s \<le> c \<or> c < e)"
  by (auto simp: spec_window_open_def)

lemma isTimeInWindow_spec:
  assumes "0 \<le> hour" "hour < 24" "0 \<le> minute" "minute < 60"
  shows "isTimeInWindow cfg hour minute
         = spec_window_open (uint (start_hour cfg) * 60 + uint (start_minute cfg))
             (uint (end_hour cfg) * 60 + uint (end_minute cfg)) (hour * 60 + minute)"
proof -
  have "0 \<le> hour * 60 + minute" "hour * 60 + minute < 1440" using assms by auto
  then show ?thesis
    by (simp add: isTimeInWindow_def Let_def spec_open_iff)
qed

lemma isOperationAllowed_spec:
  assumes "has_lora c" "time_window_enabled (lora c)" "valid_window (lora c)"
  shows "isOperationAllowed c ms
         = spec_window_open
             (uint (window_start_hour (lora c)) * 60 + uint (window_start_minute (lora c)))
             (uint (window_end_hour (lora c)) * 60 + uint (window_end_minute (lora c)))
             (minute_of_day ms)"
proof -
  have s: "sint (window_start_hour (lora c) * 60 + window_start_minute (lora c))
           = uint (window_start_hour (lora c)) * 60 + uint (window_start_minute (lora c))"
    using assms(3) by (intro sint_start) (simp_all add: valid_window_def)
  have e: "sint (window_end_hour (lora c) * 60 + window_end_minute (lora c))
           = uint (window_end_hour (lora c)) * 60 + uint (window_end_minute (lora c))"
    using assms(3) by (intro sint_start) (simp_all add: valid_window_def)
  show ?thesis
    using assms(1,2)
    unfolding isOperationAllowed_def Let_def s e current_time
    by (simp only: spec_open_iff [OF minute_of_day_range] if_False simp_thms)
qed

text \<open>
  Claim C1. For an enabled configuration and a wall-clock instant \<open>hour:minute\<close>, the
  window check is true exactly when \<open>current = hour * 60 + minute\<close> lies in the
  configured half-open interval: \<open>start \<le> current < end\<close> for a same-day window, and
  \<open>current \<ge> start \<or> current < end\<close>, that is \<open>[start, 1440) \<union> [0, end)\<close>, for a
  window that spans midnight. This holds for \<open>isTimeInWindow\<close> at every instant and
  for \<open>RadioInterface::isOperationAllowed\<close> at the instant it derives from the
  millisecond clock.
\<close>

theorem window_check_half_open:
  "(0 \<le> hour \<and> hour < 24 \<and> 0 \<le> minute \<and> minute < 60 \<longrightarrow>
      isTimeInWindow cfg hour minute
      = spec_window_open (uint (start_hour cfg) * 60 + uint (start_minute cfg))
          (uint (end_hour cfg) * 60 + uint (end_minute cfg)) (hour * 60 + minute))
   \<and> (has_lora c \<and> time_window_enabled (lora c) \<and> valid_window (lora c) \<longrightarrow>
      isOperationAllowed c ms
      = spec_window_open
          (uint (window_start_hour (lora c)) * 60 + uint (window_start_minute (lora c)))
          (uint (window_end_hour (lora c)) * 60 + uint (window_end_minute (lora c)))
          (minute_of_day ms))"
  using isTimeInWindow_spec [of hour minute cfg] isOperationAllowed_spec [of c ms]
  by blast

text \<open>
  The 22:00-04:00 window is open at 23:59, 00:00, 03:59 and 22:00 and closed at 04:00
  and 21:59; for the radio, 79200000 ms is 22:00 and 14400000 ms is 04:00.
\<close>

theorem window_check_half_open_witness:
  "isTimeInWindow window_22_04 23 59 \<and> isTimeInWindow window_22_04 0 0
   \<and> isTimeInWindow window_22_04 3 59 \<and> isTimeInWindow window_22_04 22 0
   \<and> \<not> isTimeInWindow window_22_04 4 0 \<and> \<not> isTimeInWindow window_22_04 21 59
   \<and> isOperationAllowed lora_22_04 79200000 \<and> \<not> isOperationAllowed lora_22_04 14400000"
proof -
  have v: "has_lora lora_22_04 \<and> time_window_enabled (lora lora_22_04)
           \<and> valid_window (lora lora_22_04)"
    by (simp add: lora_22_04_def valid_window_def)
  have m: "minute_of_day 79200000 = 1320" "minute_of_day 14400000 = 240"
    by (simp_all add: minute_of_day_def)
  show ?thesis
    using window_check_half_open [of 23 59 window_22_04 lora_22_04 79200000]
          window_check_half_open [of 0 0 window_22_04 lora_22_04 14400000]
          window_check_half_open [of 3 59 window_22_04 lora_22_04 79200000]
          window_check_half_open [of 22 0 window_22_04 lora_22_04 79200000]
          window_check_half_open [of 4 0 window_22_04 lora_22_04 79200000]
          window_check_half_open [of 21 59 window_22_04 lora_22_04 79200000]
          v m
    by (simp add: spec_window_open_def window_22_04_def lora_22_04_def)
qed


section \<open>The two queues\<close>

lemma cleanExpired_loop_eq:
  "cleanExpired_loop now expiry xs st pool =
     (filter (\<lambda>e. \<not> expired_at now expiry e) xs,
      st\<lparr>expiredPackets := expiredPackets st + of_nat (length (filter (expired_at now expiry) xs))\<rparr>,
      pool @ map packet (filter (expired_at now expiry) xs))"
  by (induction xs arbitrary: st pool) (simp_all add: expired_at_def release_def)

lemma pq_max_mem: "pq_max b xs \<in> set (b # xs)"
  by (induction xs arbitrary: b) auto

lemma pq_max_ge: "e \<in> set (b # xs) \<Longrightarrow> entry_priority e \<le> entry_priority (pq_max b xs)"
proof (induction xs arbitrary: b e)
  case Nil
  then show ?case by simp
next
  case (Cons x xs)
  have mono: "entry_priority c \<le> entry_priority (pq_max c xs)" for c
    using Cons.IH [of c c] by simp
  show ?case
  proof (cases "less_QueuedPacket b x")
    case True
    then have "entry_priority b \<le> entry_priority x" by (simp add: less_QueuedPacket_def)
    with Cons True mono [of x] show ?thesis by (auto intro: order_trans)
  next
    case False
    then have "entry_priority x \<le> entry_priority b" by (simp add: less_QueuedPacket_def)
    with Cons False mono [of b] show ?thesis by (auto intro: order_trans)
  qed
qed

lemma pq_top_mem: "pq_top xs = Some t \<Longrightarrow> t \<in> set xs"
  using pq_max_mem by (cases xs) auto

lemma pq_top_ge: "pq_top xs = Some t \<Longrightarrow> e \<in> set xs \<Longrightarrow> entry_priority e \<le> entry_priority t"
  using pq_max_ge by (cases xs) auto

lemma pq_top_None: "pq_top xs = None \<longleftrightarrow> xs = []"
  by (cases xs) auto

lemma pq_pop_mset: "pq_top xs = Some t \<Longrightarrow> mset xs = add_mset t (mset (pq_pop xs))"
  by (simp add: pq_pop_def pq_top_mem)

lemma pq_pop_length: "pq_top xs = Some t \<Longrightarrow> length xs = Suc (length (pq_pop xs))"
  using pq_pop_mset [of xs t] by (metis size_mset size_add_mset)




lemma mset_filter_step: "mset xs = add_mset t (mset ys) \<Longrightarrow> mset (filter P xs) = (if P t then {#t#} else {#}) + mset (filter P ys)"
proof -
  assume a: "mset xs = add_mset t (mset ys)"
  have "mset (filter P xs) = filter_mset P (mset xs)" by simp
  also have "\<dots> = filter_mset P (add_mset t (mset ys))" by (simp only: a)
  also have "\<dots> = (if P t then {#t#} else {#}) + mset (filter P ys)" by simp
  finally show ?thesis .
qed

lemma length_filter_step: "mset xs = add_mset t (mset ys) \<Longrightarrow> length (filter P xs) = (if P t then 1 else 0) + length (filter P ys)"
proof -
  assume a: "mset xs = add_mset t (mset ys)"
  have "size (mset (filter P xs)) = size ((if P t then {#t#} else {#}) + mset (filter P ys))"
    by (simp only: mset_filter_step [OF a])
  then have "length (filter P xs) = size ((if P t then {#t#} else {#}) + mset (filter P ys))"
    by (simp only: size_mset)
  also have "\<dots> = (if P t then 1 else 0) + size (mset (filter P ys))"
    by (simp del: mset_filter)
  finally show ?thesis by (simp only: size_mset)
qed

lemma mset_map_filter_step: "mset xs = add_mset t (mset ys) \<Longrightarrow> mset (map f (filter P xs)) = (if P t then {#f t#} else {#}) + mset (map f (filter P ys))"
proof -
  assume a: "mset xs = add_mset t (mset ys)"
  have "image_mset f (mset (filter P xs)) = image_mset f ((if P t then {#t#} else {#}) + mset (filter P ys))"
    by (simp only: mset_filter_step [OF a])
  then show ?thesis by simp
qed

lemma pq_cleanExpired_loop_spec:
  "\<exists>rel. pq_cleanExpired_loop now expiry pkts temp st pool
     = (fst (pq_cleanExpired_loop now expiry pkts temp st pool),
        st\<lparr>expiredPackets := expiredPackets st
             + of_nat (length (filter (expired_at now expiry) pkts))\<rparr>,
        pool @ rel)
     \<and> mset (fst (pq_cleanExpired_loop now expiry pkts temp st pool))
         = mset temp + mset (filter (\<lambda>e. \<not> expired_at now expiry e) pkts)
     \<and> mset rel = mset (map packet (filter (expired_at now expiry) pkts))"
proof (induction now expiry pkts temp st pool rule: pq_cleanExpired_loop.induct)
  case (1 now expiry pkts temp st pool)
  show ?case
  proof (cases "pq_top pkts")
    case None
    then show ?thesis
      by (subst (1 2 3) pq_cleanExpired_loop.simps) (simp add: pq_top_None)
  next
    case (Some t)
    note ms = pq_pop_mset [OF Some]
    note fl = mset_filter_step [OF ms]
    note ln = length_filter_step [OF ms]
    note mp = mset_map_filter_step [OF ms, where f = packet]
    show ?thesis
    proof (cases "expired_at now expiry t")
      case True
      then have e: "expiry * 1000 \<le> now - enqueue_time t" by (simp add: expired_at_def)
      from "1.IH"(1) [OF Some e] obtain rel where
        r: "pq_cleanExpired_loop now expiry (pq_pop pkts) temp
              (st\<lparr>expiredPackets := expiredPackets st + 1\<rparr>) (release pool (packet t))
            = (fst (pq_cleanExpired_loop now expiry (pq_pop pkts) temp
                 (st\<lparr>expiredPackets := expiredPackets st + 1\<rparr>) (release pool (packet t))),
               st\<lparr>expiredPackets := expiredPackets st + 1\<rparr>
                 \<lparr>expiredPackets := expiredPackets (st\<lparr>expiredPackets := expiredPackets st + 1\<rparr>)
                    + of_nat (length (filter (expired_at now expiry) (pq_pop pkts)))\<rparr>,
               release pool (packet t) @ rel)"
        and m: "mset (fst (pq_cleanExpired_loop now expiry (pq_pop pkts) temp
                 (st\<lparr>expiredPackets := expiredPackets st + 1\<rparr>) (release pool (packet t))))
            = mset temp + mset (filter (\<lambda>e. \<not> expired_at now expiry e) (pq_pop pkts))"
        and l: "mset rel = mset (map packet (filter (expired_at now expiry) (pq_pop pkts)))"
        by blast
      have u: "pq_cleanExpired_loop now expiry pkts temp st pool
               = pq_cleanExpired_loop now expiry (pq_pop pkts) temp
                   (st\<lparr>expiredPackets := expiredPackets st + 1\<rparr>) (release pool (packet t))"
        using Some e by (subst pq_cleanExpired_loop.simps) simp
      show ?thesis
        apply (rule exI [of _ "packet t # rel"])
        apply (subst (1 2 3) u)
        apply (subst r)
        using True m l ln [of "expired_at now expiry"] fl [of "\<lambda>e. \<not> expired_at now expiry e"]
              mp [of "expired_at now expiry"]
        apply (simp add: release_def)
        done
    next
      case False
      then have e: "\<not> expiry * 1000 \<le> now - enqueue_time t" by (simp add: expired_at_def)
      from "1.IH"(2) [OF Some e] obtain rel where
        r: "pq_cleanExpired_loop now expiry (pq_pop pkts) (pq_push t temp) st pool
            = (fst (pq_cleanExpired_loop now expiry (pq_pop pkts) (pq_push t temp) st pool),
               st\<lparr>expiredPackets := expiredPackets st
                    + of_nat (length (filter (expired_at now expiry) (pq_pop pkts)))\<rparr>,
               pool @ rel)"
        and m: "mset (fst (pq_cleanExpired_loop now expiry (pq_pop pkts) (pq_push t temp) st pool))
            = mset (pq_push t temp) + mset (filter (\<lambda>e. \<not> expired_at now expiry e) (pq_pop pkts))"
        and l: "mset rel = mset (map packet (filter (expired_at now expiry) (pq_pop pkts)))"
        by blast
      have u: "pq_cleanExpired_loop now expiry pkts temp st pool
               = pq_cleanExpired_loop now expiry (pq_pop pkts) (pq_push t temp) st pool"
        using Some e by (subst pq_cleanExpired_loop.simps) simp
      show ?thesis
        apply (rule exI [of _ rel])
        apply (subst (1 2 3) u)
        apply (subst r)
        using False m l ln [of "expired_at now expiry"] fl [of "\<lambda>e. \<not> expired_at now expiry e"]
              mp [of "expired_at now expiry"]
        apply (simp add: pq_push_def)
        done
    qed
  qed
qed



text \<open>
  Claim C10. For both queue strategies, \<open>dequeue\<close> on an empty queue returns the null
  pointer and leaves the whole queue object as it was: the container stays empty and no
  field of the statistics changes.
\<close>

theorem dequeue_empty_noop:
  "(queue_empty q \<longrightarrow> dequeue q now = (None, q))
   \<and> (queue_empty pq \<longrightarrow> pq_dequeue pq now = (None, pq))"
  by (simp add: queue_empty_def dequeue_def pq_dequeue_def)

theorem dequeue_empty_noop_witness:
  "queue_empty (new_queue 5 10 :: PacketQueue)
   \<and> dequeue (new_queue 5 10) 1000 = (None, new_queue 5 10)
   \<and> queue_size (snd (dequeue (new_queue 5 10) 1000)) = 0
   \<and> queue_empty (new_queue 5 10 :: PriorityPacketQueue)
   \<and> pq_dequeue (new_queue 5 10) 1000 = (None, new_queue 5 10)
   \<and> stats (snd (pq_dequeue (new_queue 5 10) 1000)) = stats (new_queue 5 10 :: PriorityPacketQueue)"
proof -
  have e: "queue_empty (new_queue 5 10 :: PacketQueue)"
          "queue_empty (new_queue 5 10 :: PriorityPacketQueue)"
    by (simp_all add: queue_empty_def new_queue_def)
  show ?thesis
    using dequeue_empty_noop [of "new_queue 5 10" 1000 "new_queue 5 10"] e
    by (simp add: queue_size_def new_queue_def)
qed


lemma enqueue_all_bounded:
  "length (packets q) \<le> maxQueueSize q \<Longrightarrow>
   length (packets (enqueue_all q ps now)) \<le> maxQueueSize (enqueue_all q ps now)
   \<and> maxQueueSize (enqueue_all q ps now) = maxQueueSize q"
proof (induction ps arbitrary: q)
  case Nil
  then show ?case by simp
next
  case (Cons p ps)
  have "length (packets (snd (enqueue q p now))) \<le> maxQueueSize (snd (enqueue q p now))"
       "maxQueueSize (snd (enqueue q p now)) = maxQueueSize q"
    using Cons.prems by (simp_all add: enqueue_def)
  with Cons.IH [of "snd (enqueue q p now)"] show ?case by simp
qed

lemma pq_enqueue_all_bounded:
  "length (packets q) \<le> maxQueueSize q \<Longrightarrow>
   length (packets (pq_enqueue_all q ps now)) \<le> maxQueueSize (pq_enqueue_all q ps now)
   \<and> maxQueueSize (pq_enqueue_all q ps now) = maxQueueSize q"
proof (induction ps arbitrary: q)
  case Nil
  then show ?case by simp
next
  case (Cons p ps)
  have "length (packets (snd (pq_enqueue q p now))) \<le> maxQueueSize (snd (pq_enqueue q p now))"
       "maxQueueSize (snd (pq_enqueue q p now)) = maxQueueSize q"
    using Cons.prems by (simp_all add: pq_enqueue_def pq_push_def)
  with Cons.IH [of "snd (pq_enqueue q p now)"] show ?case by simp
qed

lemma seven_fifo:
  "map packet (packets (enqueue_all (new_queue 5 3600) seven_packets now)) = five_packets
   \<and> stats (enqueue_all (new_queue 5 3600) seven_packets now)
       = \<lparr>totalQueued = 5, expiredPackets = 0, queueOverflows = 2, totalQueueTime = 0,
          maxQueueTime = 0\<rparr>"
  by (simp add: seven_packets_def five_packets_def new_queue_def enqueue_def)

lemma seven_pq:
  "map packet (packets (pq_enqueue_all (new_queue 5 3600) seven_packets now)) = five_packets
   \<and> stats (pq_enqueue_all (new_queue 5 3600) seven_packets now)
       = \<lparr>totalQueued = 5, expiredPackets = 0, queueOverflows = 2, totalQueueTime = 0,
          maxQueueTime = 0\<rparr>"
  by (simp add: seven_packets_def five_packets_def new_queue_def pq_enqueue_def pq_push_def
      new_QueuedPacket_def)

text \<open>
  Claim C3, as the code has it. For both queue strategies, \<open>enqueue\<close> on a queue with
  \<open>size \<ge> maxQueueSize\<close> returns false and leaves the container, the configuration and
  every statistic but one as they were: it adds one to \<open>queueOverflows\<close>. Otherwise it
  inserts the entry and adds one to \<open>totalQueued\<close> and changes nothing else. A queue
  within its bound stays within it under any run of \<open>enqueue\<close> calls, and with
  \<open>maxQueueSize = 5\<close> seven distinct packets leave the first five in the queue and the
  overflow counter at 2.
\<close>

theorem enqueue_rejects_when_full:
  "(length (packets q) \<ge> maxQueueSize q \<longrightarrow>
      enqueue q p now
      = (False, q\<lparr>stats := (stats q)\<lparr>queueOverflows := queueOverflows (stats q) + 1\<rparr>\<rparr>))
   \<and> (length (packets q) < maxQueueSize q \<longrightarrow>
      enqueue q p now
      = (True, q\<lparr>packets := packets q @ [\<lparr>packet = p, enqueue_time = now\<rparr>],
                  stats := (stats q)\<lparr>totalQueued := totalQueued (stats q) + 1\<rparr>\<rparr>))
   \<and> (length (packets pq) \<ge> maxQueueSize pq \<longrightarrow>
      pq_enqueue pq p now
      = (False, pq\<lparr>stats := (stats pq)\<lparr>queueOverflows := queueOverflows (stats pq) + 1\<rparr>\<rparr>))
   \<and> (length (packets pq) < maxQueueSize pq \<longrightarrow>
      fst (pq_enqueue pq p now) = True
      \<and> mset (packets (snd (pq_enqueue pq p now)))
          = add_mset \<lparr>packet = p, enqueue_time = now, entry_priority = calculatePriority p\<rparr>
              (mset (packets pq))
      \<and> stats (snd (pq_enqueue pq p now))
          = (stats pq)\<lparr>totalQueued := totalQueued (stats pq) + 1\<rparr>
      \<and> maxQueueSize (snd (pq_enqueue pq p now)) = maxQueueSize pq
      \<and> packetExpirySeconds (snd (pq_enqueue pq p now)) = packetExpirySeconds pq)
   \<and> (length (packets q) \<le> maxQueueSize q \<longrightarrow>
      queue_size (enqueue_all q ps now) \<le> maxQueueSize q)
   \<and> (length (packets pq) \<le> maxQueueSize pq \<longrightarrow>
      queue_size (pq_enqueue_all pq ps now) \<le> maxQueueSize pq)
   \<and> queue_size (enqueue_all (new_queue 5 3600) seven_packets now) = 5
   \<and> queueOverflows (stats (enqueue_all (new_queue 5 3600) seven_packets now)) = 2
   \<and> map packet (packets (enqueue_all (new_queue 5 3600) seven_packets now)) = five_packets
   \<and> queue_size (pq_enqueue_all (new_queue 5 3600) seven_packets now) = 5
   \<and> queueOverflows (stats (pq_enqueue_all (new_queue 5 3600) seven_packets now)) = 2"
proof -
  have l5: "length five_packets = 5" by (simp add: five_packets_def)
  have a: "queue_size (enqueue_all (new_queue 5 3600) seven_packets now) = 5"
    using seven_fifo [of now] l5 unfolding queue_size_def by (metis length_map)
  have b: "queue_size (pq_enqueue_all (new_queue 5 3600) seven_packets now) = 5"
    using seven_pq [of now] l5 unfolding queue_size_def by (metis length_map)
  have c: "length (packets q) \<le> maxQueueSize q \<longrightarrow>
             queue_size (enqueue_all q ps now) \<le> maxQueueSize q"
    using enqueue_all_bounded [of q ps now] by (auto simp: queue_size_def)
  have d: "length (packets pq) \<le> maxQueueSize pq \<longrightarrow>
             queue_size (pq_enqueue_all pq ps now) \<le> maxQueueSize pq"
    using pq_enqueue_all_bounded [of pq ps now] by (auto simp: queue_size_def)
  have e: "(length (packets q) \<ge> maxQueueSize q \<longrightarrow>
      enqueue q p now
      = (False, q\<lparr>stats := (stats q)\<lparr>queueOverflows := queueOverflows (stats q) + 1\<rparr>\<rparr>))
   \<and> (length (packets q) < maxQueueSize q \<longrightarrow>
      enqueue q p now
      = (True, q\<lparr>packets := packets q @ [\<lparr>packet = p, enqueue_time = now\<rparr>],
                  stats := (stats q)\<lparr>totalQueued := totalQueued (stats q) + 1\<rparr>\<rparr>))"
    by (simp add: enqueue_def)
  have f: "length (packets pq) \<ge> maxQueueSize pq \<longrightarrow>
      pq_enqueue pq p now
      = (False, pq\<lparr>stats := (stats pq)\<lparr>queueOverflows := queueOverflows (stats pq) + 1\<rparr>\<rparr>)"
    by (simp add: pq_enqueue_def)
  have g: "length (packets pq) < maxQueueSize pq \<longrightarrow>
      fst (pq_enqueue pq p now) = True
      \<and> mset (packets (snd (pq_enqueue pq p now)))
          = add_mset \<lparr>packet = p, enqueue_time = now, entry_priority = calculatePriority p\<rparr>
              (mset (packets pq))
      \<and> stats (snd (pq_enqueue pq p now))
          = (stats pq)\<lparr>totalQueued := totalQueued (stats pq) + 1\<rparr>
      \<and> maxQueueSize (snd (pq_enqueue pq p now)) = maxQueueSize pq
      \<and> packetExpirySeconds (snd (pq_enqueue pq p now)) = packetExpirySeconds pq"
    by (simp add: pq_enqueue_def pq_push_def new_QueuedPacket_def)
  have h: "queueOverflows (stats (enqueue_all (new_queue 5 3600) seven_packets now)) = 2"
          "map packet (packets (enqueue_all (new_queue 5 3600) seven_packets now)) = five_packets"
          "queueOverflows (stats (pq_enqueue_all (new_queue 5 3600) seven_packets now)) = 2"
    using seven_fifo [of now] seven_pq [of now] by simp_all
  show ?thesis
    using a b c d e f g h by blast
qed

text \<open>
  The claim as worded asks that a rejected \<open>enqueue\<close> leave the statistics unchanged.
  On a full queue of five the call returns false and moves \<open>queueOverflows\<close> from 0 to 1.
\<close>

theorem enqueue_full_counterexample:
  "length (packets (enqueue_all (new_queue 5 3600) five_packets 0))
     \<ge> maxQueueSize (enqueue_all (new_queue 5 3600) five_packets 0)
   \<and> fst (enqueue (enqueue_all (new_queue 5 3600) five_packets 0) (Some (test_packet 5)) 0) = False
   \<and> stats (snd (enqueue (enqueue_all (new_queue 5 3600) five_packets 0) (Some (test_packet 5)) 0))
       \<noteq> stats (enqueue_all (new_queue 5 3600) five_packets 0)
   \<and> queueOverflows (stats (enqueue_all (new_queue 5 3600) five_packets 0)) = 0
   \<and> queueOverflows (stats (snd (enqueue (enqueue_all (new_queue 5 3600) five_packets 0)
         (Some (test_packet 5)) 0))) = 1"
  by (simp add: five_packets_def new_queue_def enqueue_def)

theorem enqueue_rejects_when_full_witness:
  "length (packets (enqueue_all (new_queue 5 3600) five_packets 0))
     \<ge> maxQueueSize (enqueue_all (new_queue 5 3600) five_packets 0)
   \<and> fst (enqueue (enqueue_all (new_queue 5 3600) five_packets 0) (Some (test_packet 5)) 0) = False
   \<and> length (packets (new_queue 5 3600 :: PacketQueue)) < maxQueueSize (new_queue 5 3600 :: PacketQueue)
   \<and> fst (enqueue (new_queue 5 3600) (Some (test_packet 0)) 0) = True
   \<and> length (packets (new_queue 0 3600 :: PriorityPacketQueue))
       \<ge> maxQueueSize (new_queue 0 3600 :: PriorityPacketQueue)
   \<and> fst (pq_enqueue (new_queue 0 3600) (Some (test_packet 5)) 0) = False
   \<and> fst (pq_enqueue (new_queue 5 3600) (Some (test_packet 0)) 0) = True
   \<and> queue_size (enqueue_all (new_queue 5 3600) seven_packets 0) \<le> 5
   \<and> queue_size (pq_enqueue_all (new_queue 5 3600) seven_packets 0) \<le> 5"
proof -
  have f: "length (packets (enqueue_all (new_queue 5 3600) five_packets 0))
           \<ge> maxQueueSize (enqueue_all (new_queue 5 3600) five_packets 0)"
    by (simp add: five_packets_def new_queue_def enqueue_def)
  have n: "length (packets (new_queue 5 3600 :: PacketQueue)) < maxQueueSize (new_queue 5 3600 :: PacketQueue)"
      "length (packets (new_queue 5 3600 :: PriorityPacketQueue)) < maxQueueSize (new_queue 5 3600 :: PriorityPacketQueue)"
      "length (packets (new_queue 0 3600 :: PriorityPacketQueue)) \<ge> maxQueueSize (new_queue 0 3600 :: PriorityPacketQueue)"
      "maxQueueSize (new_queue 5 3600 :: PacketQueue) = 5"
      "maxQueueSize (new_queue 5 3600 :: PriorityPacketQueue) = 5"
    by (simp_all add: new_queue_def)
  show ?thesis
    using enqueue_rejects_when_full
            [of "enqueue_all (new_queue 5 3600) five_packets 0" "Some (test_packet 5)" 0
                "new_queue 0 3600" "[]" ]
          enqueue_rejects_when_full
            [of "new_queue 5 3600" "Some (test_packet 0)" 0 "new_queue 5 3600" seven_packets]
          f n
    by simp
qed


lemma pq_cleanExpired_spec:
  "\<exists>rel. pq_cleanExpired pq now pool
         = (pq\<lparr>packets := packets (fst (pq_cleanExpired pq now pool)),
               stats := (stats pq)\<lparr>expiredPackets := expiredPackets (stats pq)
                  + of_nat (length (filter (expired_at now (packetExpirySeconds pq)) (packets pq)))\<rparr>\<rparr>,
            pool @ rel)
      \<and> mset (packets (fst (pq_cleanExpired pq now pool)))
          = mset (filter (\<lambda>e. \<not> expired_at now (packetExpirySeconds pq) e) (packets pq))
      \<and> mset rel = mset (map packet (filter (expired_at now (packetExpirySeconds pq)) (packets pq)))"
proof -
  from pq_cleanExpired_loop_spec [of now "packetExpirySeconds pq" "packets pq" "[]" "stats pq" pool]
  obtain rel where
    r: "pq_cleanExpired_loop now (packetExpirySeconds pq) (packets pq) [] (stats pq) pool
        = (fst (pq_cleanExpired_loop now (packetExpirySeconds pq) (packets pq) [] (stats pq) pool),
           (stats pq)\<lparr>expiredPackets := expiredPackets (stats pq)
              + of_nat (length (filter (expired_at now (packetExpirySeconds pq)) (packets pq)))\<rparr>,
           pool @ rel)"
    and m: "mset (fst (pq_cleanExpired_loop now (packetExpirySeconds pq) (packets pq) [] (stats pq) pool))
        = mset [] + mset (filter (\<lambda>e. \<not> expired_at now (packetExpirySeconds pq) e) (packets pq))"
    and l: "mset rel = mset (map packet (filter (expired_at now (packetExpirySeconds pq)) (packets pq)))"
    by blast
  have u: "pq_cleanExpired pq now pool
           = (pq\<lparr>packets := fst (pq_cleanExpired_loop now (packetExpirySeconds pq) (packets pq) []
                                   (stats pq) pool),
                 stats := (stats pq)\<lparr>expiredPackets := expiredPackets (stats pq)
              + of_nat (length (filter (expired_at now (packetExpirySeconds pq)) (packets pq)))\<rparr>\<rparr>,
              pool @ rel)"
    unfolding pq_cleanExpired_def by (subst r) simp
  show ?thesis
    apply (rule exI [of _ rel])
    apply (subst (1 2 3) u)
    using m l apply simp
    done
qed

lemma age_9999: "\<not> (10 * 1000 \<le> (t0 + 9999 - t0 :: u32))" by simp
lemma age_10001: "(10 * 1000 \<le> (t0 + 10001 - t0 :: u32))" by simp







lemma calculatePriority_score:
  "unat (calculatePriority (Some pk))
   = 1 + (if want_ack pk then 2 else 0)
       + (if priority pk = Priority_RELIABLE then 3
          else if priority pk = Priority_ACK then 2 else 0)
       + (if which_payload_variant pk = decoded_tag PortNum_POSITION_APP then 1 else 0)
       + (if which_payload_variant pk = decoded_tag PortNum_EMERGENCY_APP then 4 else 0)"
  by (cases "which_payload_variant pk") (auto simp: calculatePriority_def Let_def)

lemma pq_dequeue_max:
  assumes "packets q \<noteq> []"
  shows "\<exists>t \<in> set (packets q).
           fst (pq_dequeue q now) = packet t
           \<and> (\<forall>e \<in> set (packets q). entry_priority e \<le> entry_priority t)
           \<and> mset (packets q) = add_mset t (mset (packets (snd (pq_dequeue q now))))"
proof -
  from assms obtain t where t: "pq_top (packets q) = Some t"
    by (cases "pq_top (packets q)") (auto simp: pq_top_None)
  show ?thesis
    using t pq_top_mem [OF t] pq_top_ge [OF t] pq_pop_mset [OF t]
    by (intro bexI [of _ t]) (simp_all add: pq_dequeue_def Let_def)
qed

lemma score_example:
  "map (map_option (\<lambda>pk. unat (calculatePriority (Some pk))))
     [Some packet_score2, Some packet_score5, Some packet_score1, Some packet_score4]
   = [Some 2, Some 5, Some 1, Some 4]"
  by (simp add: calculatePriority_def packet_score2_def packet_score5_def packet_score1_def
      packet_score4_def test_packet_def)

lemma pq_dequeue_n_numeral:
  "pq_dequeue_n (numeral k) q now
   = fst (pq_dequeue q now) # pq_dequeue_n (pred_numeral k) (snd (pq_dequeue q now)) now"
  by (simp add: numeral_eq_Suc)

lemma pq_dequeue_n_1:
  "pq_dequeue_n 1 q now = [fst (pq_dequeue q now)]"
  unfolding One_nat_def by simp

lemma order_example:
  "pq_dequeue_n 4
     (pq_enqueue_all (new_queue 32 3600)
        [Some packet_score2, Some packet_score5, Some packet_score1, Some packet_score4] t0) t1
   = [Some packet_score5, Some packet_score4, Some packet_score2, Some packet_score1]"
  by (simp add: new_queue_def pq_enqueue_def pq_push_def new_QueuedPacket_def
      calculatePriority_def packet_score2_def packet_score5_def packet_score1_def
      packet_score4_def test_packet_def pq_dequeue_def pq_pop_def less_QueuedPacket_def
      pq_dequeue_n_numeral pq_dequeue_n_1)


text \<open>
  Claim C5. In the priority strategy the score of a packet is 1, plus 2 if it wants an
  acknowledgement, plus 3 if its priority is RELIABLE (else plus 2 if it is ACK), plus 1
  if it is a decoded packet on the position port, plus 4 if it is a decoded packet on the
  emergency port. The score is computed when the entry is constructed by \<open>enqueue\<close> and
  stored in it. \<open>dequeue\<close> on a non-empty queue returns the packet of an entry whose
  score no queued entry exceeds, and removes that entry and no other. Packets of score
  2, 5, 1, 4 enqueued in this order are dequeued in the order 5, 4, 2, 1.
\<close>

theorem priority_score_and_dequeue_order:
  "unat (calculatePriority (Some pk))
   = 1 + (if want_ack pk then 2 else 0)
       + (if priority pk = Priority_RELIABLE then 3
          else if priority pk = Priority_ACK then 2 else 0)
       + (if which_payload_variant pk = decoded_tag PortNum_POSITION_APP then 1 else 0)
       + (if which_payload_variant pk = decoded_tag PortNum_EMERGENCY_APP then 4 else 0)
   \<and> (length (packets q) < maxQueueSize q \<longrightarrow>
        packets (snd (pq_enqueue q p now))
        = packets q @ [\<lparr>packet = p, enqueue_time = now, entry_priority = calculatePriority p\<rparr>])
   \<and> (packets q \<noteq> [] \<longrightarrow>
        (\<exists>t \<in> set (packets q).
           fst (pq_dequeue q now) = packet t
           \<and> (\<forall>e \<in> set (packets q). entry_priority e \<le> entry_priority t)
           \<and> mset (packets q) = add_mset t (mset (packets (snd (pq_dequeue q now))))))
   \<and> map (map_option (\<lambda>pk. unat (calculatePriority (Some pk))))
        [Some packet_score2, Some packet_score5, Some packet_score1, Some packet_score4]
      = [Some 2, Some 5, Some 1, Some 4]
   \<and> pq_dequeue_n 4
        (pq_enqueue_all (new_queue 32 3600)
           [Some packet_score2, Some packet_score5, Some packet_score1, Some packet_score4] t0) t1
      = [Some packet_score5, Some packet_score4, Some packet_score2, Some packet_score1]"
proof -
  have a: "length (packets q) < maxQueueSize q \<longrightarrow>
        packets (snd (pq_enqueue q p now))
        = packets q @ [\<lparr>packet = p, enqueue_time = now, entry_priority = calculatePriority p\<rparr>]"
    by (simp add: pq_enqueue_def pq_push_def new_QueuedPacket_def)
  show ?thesis
    using a calculatePriority_score [of pk] pq_dequeue_max [of q now] score_example
      order_example [of t0 t1]
    by blast
qed

theorem priority_score_and_dequeue_order_witness:
  "length (packets (new_queue 32 3600 :: PriorityPacketQueue))
     < maxQueueSize (new_queue 32 3600 :: PriorityPacketQueue)
   \<and> packets (snd (pq_enqueue (new_queue 32 3600) (Some packet_score5) 7))
       = [\<lparr>packet = Some packet_score5, enqueue_time = 7, entry_priority = 5\<rparr>]
   \<and> packets (snd (pq_enqueue (new_queue 32 3600) (Some packet_score5) 7)) \<noteq> []
   \<and> (\<exists>t \<in> set (packets (snd (pq_enqueue (new_queue 32 3600) (Some packet_score5) 7))).
         fst (pq_dequeue (snd (pq_enqueue (new_queue 32 3600) (Some packet_score5) 7)) 9) = packet t
         \<and> (\<forall>e \<in> set (packets (snd (pq_enqueue (new_queue 32 3600) (Some packet_score5) 7))).
               entry_priority e \<le> entry_priority t))"
proof -
  have n: "length (packets (new_queue 32 3600 :: PriorityPacketQueue))
           < maxQueueSize (new_queue 32 3600 :: PriorityPacketQueue)"
          "packets (new_queue 32 3600 :: PriorityPacketQueue) = []"
    by (simp_all add: new_queue_def)
  have s: "calculatePriority (Some packet_score5) = 5"
    by (simp add: calculatePriority_def packet_score5_def test_packet_def)
  have e: "packets (snd (pq_enqueue (new_queue 32 3600) (Some packet_score5) 7))
           = [\<lparr>packet = Some packet_score5, enqueue_time = 7, entry_priority = 5\<rparr>]"
    using priority_score_and_dequeue_order
            [of packet_score5 "new_queue 32 3600" "Some packet_score5" 7 0 0] n s
    by simp
  then have ne: "packets (snd (pq_enqueue (new_queue 32 3600) (Some packet_score5) 7)) \<noteq> []"
    by simp
  show ?thesis
    using priority_score_and_dequeue_order
            [of packet_score5 "snd (pq_enqueue (new_queue 32 3600) (Some packet_score5) 7)"
                "Some packet_score5" 9 0 0] n(1) e ne
    by blast
qed


section \<open>The drain loops\<close>

lemma millis_fields [simp]:
  "fst (millis env r) = clock env (millis_calls r)"
  "snd (millis env r) = r\<lparr>millis_calls := Suc (millis_calls r)\<rparr>"
  by (simp_all add: millis_def)

lemma fifo_loop_empty:
  "queue_empty (packetQueue r) \<Longrightarrow> fifo_process_loop env r = r"
  by (subst fifo_process_loop.simps) simp

lemma fifo_loop_null:
  "\<not> queue_empty (packetQueue r) \<Longrightarrow> fifo_next env r = (None, r2) \<Longrightarrow>
   fifo_process_loop env r = fifo_process_loop env r2"
  by (subst fifo_process_loop.simps)
     (auto simp: fifo_next_def millis_def split: prod.splits)

lemma fifo_loop_fail:
  "\<not> queue_empty (packetQueue r) \<Longrightarrow> fifo_next env r = (Some pk, r2) \<Longrightarrow>
   fst (sendPacket env r2 pk) \<noteq> ERRNO_OK \<Longrightarrow>
   fifo_process_loop env r = fifo_requeue env (snd (sendPacket env r2 pk)) pk"
  by (subst fifo_process_loop.simps)
     (auto simp: fifo_next_def millis_def split: prod.splits)

lemma fifo_loop_sent:
  "\<not> queue_empty (packetQueue r) \<Longrightarrow> fifo_next env r = (Some pk, r2) \<Longrightarrow>
   fst (sendPacket env r2 pk) = ERRNO_OK \<Longrightarrow>
   fifo_process_loop env r = fifo_process_loop env (snd (sendPacket env r2 pk))"
  by (subst fifo_process_loop.simps)
     (auto simp: fifo_next_def millis_def split: prod.splits)

lemma fifo_sendPacket_queue [simp]:
  "packetQueue (snd (sendPacket env r pk)) = packetQueue r"
  by (simp add: sendPacket_def sendPacket_body_def Let_def)

lemma fifo_next_shorter:
  "\<not> queue_empty (packetQueue r) \<Longrightarrow> fifo_next env r = (pkt, r2) \<Longrightarrow>
   length (packets (packetQueue r2)) < length (packets (packetQueue r))"
  by (cases "packets (packetQueue r)")
     (auto simp: fifo_next_def millis_def dequeue_def queue_empty_def Let_def)

lemma fifo_process_loop_rule:
  assumes E: "\<And>r. queue_empty (packetQueue r) \<Longrightarrow> Q r r"
    and N: "\<And>r r2 r'. \<not> queue_empty (packetQueue r) \<Longrightarrow> fifo_next env r = (None, r2)
              \<Longrightarrow> Q r2 r' \<Longrightarrow> Q r r'"
    and F: "\<And>r pk r2. \<not> queue_empty (packetQueue r) \<Longrightarrow> fifo_next env r = (Some pk, r2)
              \<Longrightarrow> fst (sendPacket env r2 pk) \<noteq> ERRNO_OK
              \<Longrightarrow> Q r (fifo_requeue env (snd (sendPacket env r2 pk)) pk)"
    and S: "\<And>r pk r2 r'. \<not> queue_empty (packetQueue r) \<Longrightarrow> fifo_next env r = (Some pk, r2)
              \<Longrightarrow> fst (sendPacket env r2 pk) = ERRNO_OK
              \<Longrightarrow> Q (snd (sendPacket env r2 pk)) r' \<Longrightarrow> Q r r'"
  shows "Q r (fifo_process_loop env r)"
proof (induction "length (packets (packetQueue r))" arbitrary: r rule: less_induct)
  case less
  show ?case
  proof (cases "queue_empty (packetQueue r)")
    case True
    from E [OF True] show ?thesis by (simp only: fifo_loop_empty [OF True])
  next
    case ne: False
    obtain pkt r2 where nx: "fifo_next env r = (pkt, r2)" by (cases "fifo_next env r")
    have dec: "length (packets (packetQueue r2)) < length (packets (packetQueue r))"
      using fifo_next_shorter [OF ne nx] .
    show ?thesis
    proof (cases pkt)
      case None
      have nx': "fifo_next env r = (None, r2)" using nx None by simp
      from N [OF ne nx' less.hyps [OF dec]] show ?thesis
        by (simp only: fifo_loop_null [OF ne nx'])
    next
      case (Some pk)
      have nx': "fifo_next env r = (Some pk, r2)" using nx Some by simp
      show ?thesis
      proof (cases "fst (sendPacket env r2 pk) = ERRNO_OK")
        case False
        from F [OF ne nx' False] show ?thesis
          by (simp only: fifo_loop_fail [OF ne nx' False])
      next
        case True
        have "length (packets (packetQueue (snd (sendPacket env r2 pk))))
              < length (packets (packetQueue r))"
          using dec by simp
        from S [OF ne nx' True less.hyps [OF this]] show ?thesis
          by (simp only: fifo_loop_sent [OF ne nx' True])
      qed
    qed
  qed
qed


lemma pq_loop_empty:
  "queue_empty (priorityQueue r) \<Longrightarrow> pq_process_loop env st r n = (r, n)"
  by (subst pq_process_loop.simps) simp

lemma pq_loop_budget:
  "\<not> queue_empty (priorityQueue r) \<Longrightarrow> \<not> budget_left env st r n \<Longrightarrow>
   pq_process_loop env st r n = (r\<lparr>millis_calls := Suc (millis_calls r)\<rparr>, n)"
  by (subst pq_process_loop.simps) (auto simp: budget_left_def millis_def)

lemma pq_loop_null:
  "\<not> queue_empty (priorityQueue r) \<Longrightarrow> budget_left env st r n \<Longrightarrow>
   pq_next env r = (None, r2) \<Longrightarrow>
   pq_process_loop env st r n = pq_process_loop env st r2 n"
  by (subst pq_process_loop.simps)
     (auto simp: pq_next_def budget_left_def millis_def split: prod.splits)

lemma pq_loop_fail:
  "\<not> queue_empty (priorityQueue r) \<Longrightarrow> budget_left env st r n \<Longrightarrow>
   pq_next env r = (Some pk, r2) \<Longrightarrow> fst (sendPacket env r2 pk) \<noteq> ERRNO_OK \<Longrightarrow>
   pq_process_loop env st r n = (pq_requeue env (snd (sendPacket env r2 pk)) pk, n)"
  by (subst pq_process_loop.simps)
     (auto simp: pq_next_def budget_left_def millis_def Let_def split: prod.splits)

lemma pq_loop_sent:
  "\<not> queue_empty (priorityQueue r) \<Longrightarrow> budget_left env st r n \<Longrightarrow>
   pq_next env r = (Some pk, r2) \<Longrightarrow> fst (sendPacket env r2 pk) = ERRNO_OK \<Longrightarrow>
   pq_process_loop env st r n
   = pq_process_loop env st
       (count_sent (snd (sendPacket env r2 pk)) (getLastPriority env (priorityQueue r2) > 2))
       (n + 1)"
  by (subst pq_process_loop.simps)
     (auto simp: pq_next_def budget_left_def millis_def Let_def split: prod.splits)

lemma pq_sendPacket_queue [simp]:
  "priorityQueue (snd (sendPacket env r pk)) = priorityQueue r"
  by (simp add: sendPacket_def sendPacket_body_def Let_def)

lemma count_sent_queue [simp]:
  "priorityQueue (count_sent r h) = priorityQueue r"
  by (simp add: count_sent_def)

lemma pq_next_shorter:
  "\<not> queue_empty (priorityQueue r) \<Longrightarrow> pq_next env r = (pkt, r2) \<Longrightarrow>
   length (packets (priorityQueue r)) = Suc (length (packets (priorityQueue r2)))"
proof -
  assume ne: "\<not> queue_empty (priorityQueue r)" and nx: "pq_next env r = (pkt, r2)"
  from ne obtain t where t: "pq_top (packets (priorityQueue r)) = Some t"
    by (cases "pq_top (packets (priorityQueue r))") (auto simp: pq_top_None queue_empty_def)
  show ?thesis
    using nx t pq_pop_length [OF t]
    by (auto simp: pq_next_def millis_def pq_dequeue_def Let_def)
qed

lemma pq_process_loop_rule:
  assumes E: "\<And>r n. queue_empty (priorityQueue r) \<Longrightarrow> Q r n (r, n)"
    and B: "\<And>r n. \<not> queue_empty (priorityQueue r) \<Longrightarrow> \<not> budget_left env st r n
              \<Longrightarrow> Q r n (r\<lparr>millis_calls := Suc (millis_calls r)\<rparr>, n)"
    and N: "\<And>r n r2 res. \<not> queue_empty (priorityQueue r) \<Longrightarrow> budget_left env st r n
              \<Longrightarrow> pq_next env r = (None, r2) \<Longrightarrow> Q r2 n res \<Longrightarrow> Q r n res"
    and F: "\<And>r n pk r2. \<not> queue_empty (priorityQueue r) \<Longrightarrow> budget_left env st r n
              \<Longrightarrow> pq_next env r = (Some pk, r2)
              \<Longrightarrow> fst (sendPacket env r2 pk) \<noteq> ERRNO_OK
              \<Longrightarrow> Q r n (pq_requeue env (snd (sendPacket env r2 pk)) pk, n)"
    and S: "\<And>r n pk r2 res. \<not> queue_empty (priorityQueue r) \<Longrightarrow> budget_left env st r n
              \<Longrightarrow> pq_next env r = (Some pk, r2)
              \<Longrightarrow> fst (sendPacket env r2 pk) = ERRNO_OK
              \<Longrightarrow> Q (count_sent (snd (sendPacket env r2 pk))
                       (getLastPriority env (priorityQueue r2) > 2)) (n + 1) res
              \<Longrightarrow> Q r n res"
  shows "Q r n (pq_process_loop env st r n)"
proof (induction "length (packets (priorityQueue r))" arbitrary: r n rule: less_induct)
  case less
  show ?case
  proof (cases "queue_empty (priorityQueue r)")
    case True
    from E [OF True] show ?thesis by (simp only: pq_loop_empty [OF True])
  next
    case ne: False
    show ?thesis
    proof (cases "budget_left env st r n")
      case False
      from B [OF ne False] show ?thesis by (simp only: pq_loop_budget [OF ne False])
    next
      case bl: True
      obtain pkt r2 where nx: "pq_next env r = (pkt, r2)" by (cases "pq_next env r")
      have dec: "length (packets (priorityQueue r2)) < length (packets (priorityQueue r))"
        using pq_next_shorter [OF ne nx] by simp
      show ?thesis
      proof (cases pkt)
        case None
        have nx': "pq_next env r = (None, r2)" using nx None by simp
        from N [OF ne bl nx' less.hyps [OF dec]] show ?thesis
          by (simp only: pq_loop_null [OF ne bl nx'])
      next
        case (Some pk)
        have nx': "pq_next env r = (Some pk, r2)" using nx Some by simp
        show ?thesis
        proof (cases "fst (sendPacket env r2 pk) = ERRNO_OK")
          case False
          from F [OF ne bl nx' False] show ?thesis
            by (simp only: pq_loop_fail [OF ne bl nx' False])
        next
          case True
          have "length (packets (priorityQueue (count_sent (snd (sendPacket env r2 pk))
                   (getLastPriority env (priorityQueue r2) > 2))))
                < length (packets (priorityQueue r))"
            using dec by simp
          from S [OF ne bl nx' True less.hyps [OF this]] show ?thesis
            by (simp only: pq_loop_sent [OF ne bl nx' True])
        qed
      qed
    qed
  qed
qed


lemma sendPacket_calls_sendPacket:
  "sendPacket_calls (snd (sendPacket env r pk))
   = sendPacket_calls r @ [(pk, fst (sendPacket env r pk))]"
  by (simp add: sendPacket_def sendPacket_body_def Let_def)

lemma fifo_next_calls:
  "fifo_next env r = (pkt, r2) \<Longrightarrow> sendPacket_calls r2 = sendPacket_calls r"
  by (auto simp: fifo_next_def millis_def split: prod.splits)

lemma pq_next_calls:
  "pq_next env r = (pkt, r2) \<Longrightarrow> sendPacket_calls r2 = sendPacket_calls r"
  by (auto simp: pq_next_def millis_def split: prod.splits)

lemma fifo_requeue_calls [simp]:
  "sendPacket_calls (fifo_requeue env r pk) = sendPacket_calls r"
  by (simp add: fifo_requeue_def millis_def enqueue_def)

lemma pq_requeue_calls [simp]:
  "sendPacket_calls (pq_requeue env r pk) = sendPacket_calls r"
  by (simp add: pq_requeue_def millis_def pq_enqueue_def)

lemma count_sent_calls [simp]:
  "sendPacket_calls (count_sent r h) = sendPacket_calls r"
  by (simp add: count_sent_def)

lemma all_ok_butlast_Cons:
  "all_ok (butlast new) \<Longrightarrow> all_ok (butlast ((pk, ERRNO_OK) # new))"
  by (cases new) (simp_all add: all_ok_def)

lemma fifo_process_loop_calls:
  "\<exists>new. sendPacket_calls (fifo_process_loop env r) = sendPacket_calls r @ new
         \<and> all_ok (butlast new)"
proof (rule fifo_process_loop_rule
         [where Q = "\<lambda>r r'. \<exists>new. sendPacket_calls r' = sendPacket_calls r @ new
                                  \<and> all_ok (butlast new)"])
  fix r :: FifoRadio
  show "\<exists>new. sendPacket_calls r = sendPacket_calls r @ new \<and> all_ok (butlast new)"
    by (intro exI [of _ "[]"]) (simp add: all_ok_def)
next
  fix r r2 r' :: FifoRadio
  assume "fifo_next env r = (None, r2)"
    and "\<exists>new. sendPacket_calls r' = sendPacket_calls r2 @ new \<and> all_ok (butlast new)"
  then show "\<exists>new. sendPacket_calls r' = sendPacket_calls r @ new \<and> all_ok (butlast new)"
    by (simp add: fifo_next_calls)
next
  fix r r2 :: FifoRadio and pk
  assume "fifo_next env r = (Some pk, r2)"
  then show "\<exists>new. sendPacket_calls (fifo_requeue env (snd (sendPacket env r2 pk)) pk)
                     = sendPacket_calls r @ new \<and> all_ok (butlast new)"
    by (intro exI [of _ "[(pk, fst (sendPacket env r2 pk))]"])
       (simp add: sendPacket_calls_sendPacket fifo_next_calls all_ok_def)
next
  fix r r2 r' :: FifoRadio and pk
  assume nx: "fifo_next env r = (Some pk, r2)"
    and ok: "fst (sendPacket env r2 pk) = ERRNO_OK"
    and "\<exists>new. sendPacket_calls r' = sendPacket_calls (snd (sendPacket env r2 pk)) @ new
               \<and> all_ok (butlast new)"
  then obtain new where n: "sendPacket_calls r' = sendPacket_calls (snd (sendPacket env r2 pk)) @ new"
    "all_ok (butlast new)" by blast
  show "\<exists>new. sendPacket_calls r' = sendPacket_calls r @ new \<and> all_ok (butlast new)"
    using n nx ok all_ok_butlast_Cons [OF n(2), of pk]
    by (intro exI [of _ "(pk, ERRNO_OK) # new"])
       (simp add: sendPacket_calls_sendPacket fifo_next_calls)
qed

lemma pq_process_loop_calls:
  "\<exists>new. sendPacket_calls (fst (pq_process_loop env st r n)) = sendPacket_calls r @ new
         \<and> all_ok (butlast new)
         \<and> snd (pq_process_loop env st r n) = n + of_nat (ok_count new)"
proof (rule pq_process_loop_rule
         [where Q = "\<lambda>r n res. \<exists>new. sendPacket_calls (fst res) = sendPacket_calls r @ new
                                  \<and> all_ok (butlast new)
                                  \<and> snd res = n + of_nat (ok_count new)"])
  fix r :: PriorityRadio and n :: u32
  show "\<exists>new. sendPacket_calls (fst (r, n)) = sendPacket_calls r @ new \<and> all_ok (butlast new)
          \<and> snd (r, n) = n + of_nat (ok_count new)"
    by (intro exI [of _ "[]"]) (simp add: all_ok_def ok_count_def)
next
  fix r :: PriorityRadio and n :: u32
  show "\<exists>new. sendPacket_calls (fst (r\<lparr>millis_calls := Suc (millis_calls r)\<rparr>, n))
                = sendPacket_calls r @ new \<and> all_ok (butlast new)
          \<and> snd (r\<lparr>millis_calls := Suc (millis_calls r)\<rparr>, n) = n + of_nat (ok_count new)"
    by (intro exI [of _ "[]"]) (simp add: all_ok_def ok_count_def)
next
  fix r r2 :: PriorityRadio and n :: u32 and res
  assume "pq_next env r = (None, r2)"
    and "\<exists>new. sendPacket_calls (fst res) = sendPacket_calls r2 @ new \<and> all_ok (butlast new)
           \<and> snd res = n + of_nat (ok_count new)"
  then show "\<exists>new. sendPacket_calls (fst res) = sendPacket_calls r @ new \<and> all_ok (butlast new)
           \<and> snd res = n + of_nat (ok_count new)"
    by (simp add: pq_next_calls)
next
  fix r r2 :: PriorityRadio and n :: u32 and pk
  assume "pq_next env r = (Some pk, r2)" and "fst (sendPacket env r2 pk) \<noteq> ERRNO_OK"
  then show "\<exists>new. sendPacket_calls (fst (pq_requeue env (snd (sendPacket env r2 pk)) pk, n))
                     = sendPacket_calls r @ new \<and> all_ok (butlast new)
          \<and> snd (pq_requeue env (snd (sendPacket env r2 pk)) pk, n) = n + of_nat (ok_count new)"
    by (intro exI [of _ "[(pk, fst (sendPacket env r2 pk))]"])
       (simp add: sendPacket_calls_sendPacket pq_next_calls all_ok_def ok_count_def)
next
  fix r r2 :: PriorityRadio and n :: u32 and pk res
  assume nx: "pq_next env r = (Some pk, r2)"
    and ok: "fst (sendPacket env r2 pk) = ERRNO_OK"
    and "\<exists>new. sendPacket_calls (fst res)
                = sendPacket_calls (count_sent (snd (sendPacket env r2 pk))
                      (getLastPriority env (priorityQueue r2) > 2)) @ new
               \<and> all_ok (butlast new) \<and> snd res = n + 1 + of_nat (ok_count new)"
  then obtain new where n: "sendPacket_calls (fst res)
        = sendPacket_calls (count_sent (snd (sendPacket env r2 pk))
                      (getLastPriority env (priorityQueue r2) > 2)) @ new"
    "all_ok (butlast new)" "snd res = n + 1 + of_nat (ok_count new)" by blast
  show "\<exists>new. sendPacket_calls (fst res) = sendPacket_calls r @ new \<and> all_ok (butlast new)
           \<and> snd res = n + of_nat (ok_count new)"
    using n nx ok all_ok_butlast_Cons [OF n(2), of pk]
    by (intro exI [of _ "(pk, ERRNO_OK) # new"])
       (simp add: sendPacket_calls_sendPacket pq_next_calls ok_count_def)
qed


lemma fifo_processQueuedPackets_calls:
  "\<exists>new. sendPacket_calls (fifo_processQueuedPackets env r) = sendPacket_calls r @ new
         \<and> all_ok (butlast new)"
proof (cases "\<not> has_lora (config r) \<or> \<not> time_window_enabled (lora (config r))")
  case True
  then show ?thesis
    by (intro exI [of _ "[]"]) (auto simp: fifo_processQueuedPackets_def all_ok_def)
next
  case False
  obtain q' pool' where c: "cleanExpired (packetQueue r) (clock env (millis_calls r)) (packetPool r)
                            = (q', pool')"
    by (cases "cleanExpired (packetQueue r) (clock env (millis_calls r)) (packetPool r)")
  have "fifo_processQueuedPackets env r
        = fifo_process_loop env
            (r\<lparr>millis_calls := Suc (millis_calls r), packetQueue := q', packetPool := pool'\<rparr>)"
    using False c by (simp add: fifo_processQueuedPackets_def millis_def)
  then show ?thesis
    using fifo_process_loop_calls
            [of env "r\<lparr>millis_calls := Suc (millis_calls r), packetQueue := q', packetPool := pool'\<rparr>"]
    by simp
qed

lemma pq_processQueuedPackets_count_calls:
  "\<exists>new. sendPacket_calls (fst (pq_processQueuedPackets_count env r)) = sendPacket_calls r @ new
         \<and> all_ok (butlast new)
         \<and> snd (pq_processQueuedPackets_count env r) = of_nat (ok_count new)"
proof (cases "\<not> has_lora (config r) \<or> \<not> time_window_enabled (lora (config r))")
  case True
  then show ?thesis
    by (intro exI [of _ "[]"]) (auto simp: pq_processQueuedPackets_count_def all_ok_def ok_count_def)
next
  case False
  obtain q' pool' where c: "pq_cleanExpired (priorityQueue r) (clock env (millis_calls r)) (packetPool r)
                            = (q', pool')"
    by (cases "pq_cleanExpired (priorityQueue r) (clock env (millis_calls r)) (packetPool r)")
  have "pq_processQueuedPackets_count env r
        = pq_process_loop env (clock env (Suc (millis_calls r)))
            (r\<lparr>priorityQueue := q', packetPool := pool', millis_calls := Suc (Suc (millis_calls r))\<rparr>) 0"
    using False c by (simp add: pq_processQueuedPackets_count_def millis_def)
  then show ?thesis
    using pq_process_loop_calls
            [of env "clock env (Suc (millis_calls r))"
                "r\<lparr>priorityQueue := q', packetPool := pool', millis_calls := Suc (Suc (millis_calls r))\<rparr>" 0]
    by simp
qed

lemma first_failure_is_only_call:
  "all_ok (butlast new) \<Longrightarrow> new \<noteq> [] \<Longrightarrow> snd (hd new) \<noteq> ERRNO_OK \<Longrightarrow>
   length new = 1 \<and> ok_count new = 0"
  by (cases new; cases "tl new") (auto simp: all_ok_def ok_count_def)

lemma pq_requeue_eq:
  "pq_requeue env r pk =
     (if length (packets (priorityQueue r)) < maxQueueSize (priorityQueue r)
      then r\<lparr>millis_calls := Suc (millis_calls r),
             priorityQueue := (priorityQueue r)
               \<lparr>packets := packets (priorityQueue r)
                   @ [\<lparr>packet = Some pk, enqueue_time = clock env (millis_calls r),
                       entry_priority = calculatePriority (Some pk)\<rparr>],
                stats := (stats (priorityQueue r))
                   \<lparr>totalQueued := totalQueued (stats (priorityQueue r)) + 1\<rparr>\<rparr>\<rparr>
      else r\<lparr>millis_calls := Suc (millis_calls r),
             priorityQueue := (priorityQueue r)
               \<lparr>stats := (stats (priorityQueue r))
                   \<lparr>queueOverflows := queueOverflows (stats (priorityQueue r)) + 1\<rparr>\<rparr>,
             metrics := (metrics r)\<lparr>dropCount := dropCount (metrics r) + 1\<rparr>,
             packetPool := packetPool r @ [Some pk]\<rparr>)"
  by (simp add: pq_requeue_def millis_def pq_enqueue_def pq_push_def new_QueuedPacket_def
      release_def)

lemma fifo_requeue_eq:
  "fifo_requeue env r pk =
     (if length (packets (packetQueue r)) < maxQueueSize (packetQueue r)
      then r\<lparr>millis_calls := Suc (millis_calls r),
             packetQueue := (packetQueue r)
               \<lparr>packets := packets (packetQueue r)
                   @ [\<lparr>packet = Some pk, enqueue_time = clock env (millis_calls r)\<rparr>],
                stats := (stats (packetQueue r))
                   \<lparr>totalQueued := totalQueued (stats (packetQueue r)) + 1\<rparr>\<rparr>\<rparr>
      else r\<lparr>millis_calls := Suc (millis_calls r),
             packetQueue := (packetQueue r)
               \<lparr>stats := (stats (packetQueue r))
                   \<lparr>queueOverflows := queueOverflows (stats (packetQueue r)) + 1\<rparr>\<rparr>,
             packetPool := packetPool r @ [Some pk]\<rparr>)"
  by (simp add: fifo_requeue_def millis_def enqueue_def release_def)

lemma sendPacket_pool:
  "packetPool (snd (sendPacket env r pk))
   = (if disabled r \<or> payloadlen pk = 0 then packetPool r @ [Some pk] else packetPool r)"
  by (simp add: sendPacket_def sendPacket_body_def Let_def release_def)


lemma pq_fail_iteration:
  "\<not> queue_empty (priorityQueue r) \<and> budget_left env st r n \<and> fst (pq_next env r) = Some pk
   \<and> fst (sendPacket env (snd (pq_next env r)) pk) \<noteq> ERRNO_OK \<longrightarrow>
   pq_process_loop env st r n
   = (pq_requeue env (snd (sendPacket env (snd (pq_next env r)) pk)) pk, n)"
  using pq_loop_fail [of r env st n pk "snd (pq_next env r)"]
  by (cases "pq_next env r") auto

lemma fifo_fail_iteration:
  "\<not> queue_empty (packetQueue f) \<and> fst (fifo_next env f) = Some pk
   \<and> fst (sendPacket env (snd (fifo_next env f)) pk) \<noteq> ERRNO_OK \<longrightarrow>
   fifo_process_loop env f
   = fifo_requeue env (snd (sendPacket env (snd (fifo_next env f)) pk)) pk"
  using fifo_loop_fail [of f env pk "snd (fifo_next env f)"]
  by (cases "fifo_next env f") auto

lemma pq_room_after_dequeue:
  "\<not> queue_empty (priorityQueue r)
   \<and> length (packets (priorityQueue r)) \<le> maxQueueSize (priorityQueue r) \<longrightarrow>
   length (packets (priorityQueue (snd (sendPacket env (snd (pq_next env r)) pk))))
   < maxQueueSize (priorityQueue (snd (sendPacket env (snd (pq_next env r)) pk)))"
proof (intro impI, elim conjE)
  assume ne: "\<not> queue_empty (priorityQueue r)"
    and le: "length (packets (priorityQueue r)) \<le> maxQueueSize (priorityQueue r)"
  obtain pkt r2 where nx: "pq_next env r = (pkt, r2)" by (cases "pq_next env r")
  have "maxQueueSize (priorityQueue r2) = maxQueueSize (priorityQueue r)"
    using nx by (auto simp: pq_next_def millis_def pq_dequeue_def Let_def split: option.splits)
  then show "length (packets (priorityQueue (snd (sendPacket env (snd (pq_next env r)) pk))))
   < maxQueueSize (priorityQueue (snd (sendPacket env (snd (pq_next env r)) pk)))"
    using pq_next_shorter [OF ne nx] le nx by simp
qed

lemma fifo_room_after_dequeue:
  "\<not> queue_empty (packetQueue f)
   \<and> length (packets (packetQueue f)) \<le> maxQueueSize (packetQueue f) \<longrightarrow>
   length (packets (packetQueue (snd (sendPacket env (snd (fifo_next env f)) pk))))
   < maxQueueSize (packetQueue (snd (sendPacket env (snd (fifo_next env f)) pk)))"
proof (intro impI, elim conjE)
  assume ne: "\<not> queue_empty (packetQueue f)"
    and le: "length (packets (packetQueue f)) \<le> maxQueueSize (packetQueue f)"
  obtain pkt r2 where nx: "fifo_next env f = (pkt, r2)" by (cases "fifo_next env f")
  have "maxQueueSize (packetQueue r2) = maxQueueSize (packetQueue f)"
    using nx by (auto simp: fifo_next_def millis_def dequeue_def Let_def split: list.splits)
  then show "length (packets (packetQueue (snd (sendPacket env (snd (fifo_next env f)) pk))))
   < maxQueueSize (packetQueue (snd (sendPacket env (snd (fifo_next env f)) pk)))"
    using fifo_next_shorter [OF ne nx] le nx by simp
qed

lemma pq_cycle_calls:
  "\<exists>new. sendPacket_calls (fst (pq_processQueuedPackets_count env r)) = sendPacket_calls r @ new
      \<and> all_ok (butlast new)
      \<and> snd (pq_processQueuedPackets_count env r) = of_nat (ok_count new)
      \<and> (new \<noteq> [] \<and> snd (hd new) \<noteq> ERRNO_OK \<longrightarrow>
           length new = 1 \<and> snd (pq_processQueuedPackets_count env r) = 0)"
proof -
  from pq_processQueuedPackets_count_calls [of env r] obtain new where
    n: "sendPacket_calls (fst (pq_processQueuedPackets_count env r)) = sendPacket_calls r @ new"
      "all_ok (butlast new)" "snd (pq_processQueuedPackets_count env r) = of_nat (ok_count new)"
    by blast
  show ?thesis
    using n first_failure_is_only_call [OF n(2)] by (intro exI [of _ new]) simp
qed

lemma fifo_cycle_calls:
  "\<exists>new. sendPacket_calls (fifo_processQueuedPackets env f) = sendPacket_calls f @ new
      \<and> all_ok (butlast new)
      \<and> (new \<noteq> [] \<and> snd (hd new) \<noteq> ERRNO_OK \<longrightarrow> length new = 1)"
proof -
  from fifo_processQueuedPackets_calls [of env f] obtain new where
    n: "sendPacket_calls (fifo_processQueuedPackets env f) = sendPacket_calls f @ new"
      "all_ok (butlast new)"
    by blast
  show ?thesis
    using n first_failure_is_only_call [OF n(2)] by (intro exI [of _ new]) simp
qed


text \<open>
  Claim C6. In a drain cycle of RadioInterfaceQueue.cpp and of RadioInterface.cpp, when
  \<open>sendPacket\<close> fails for the packet just dequeued, the loop ends with the re-enqueue of
  that packet and \<open>packetsProcessed\<close> as it was: no later packet is attempted. The
  re-enqueue is an ordinary \<open>enqueue\<close>: the entry is stamped with the clock at that
  moment and \<open>totalQueued\<close> grows by one; when the queue is full instead, the packet is
  handed to the pool once and counted (\<open>queueOverflows\<close>, and \<open>dropCount\<close> in
  RadioInterfaceQueue.cpp). Over a whole cycle every call of \<open>sendPacket\<close> but the last
  returned \<open>ERRNO_OK\<close>, so at most one packet is re-enqueued; \<open>packetsProcessed\<close> is the
  number of successful calls, and it is 0 when the first call fails. A queue within its
  bound has room for the re-enqueue, the packet having just been dequeued. The last
  conjunct records what \<open>sendPacket\<close> itself hands to the pool.
\<close>

theorem transmit_failure_requeues_and_stops:
  "(\<not> queue_empty (priorityQueue r) \<and> budget_left env st r n \<and> fst (pq_next env r) = Some pk
     \<and> fst (sendPacket env (snd (pq_next env r)) pk) \<noteq> ERRNO_OK \<longrightarrow>
     pq_process_loop env st r n
     = (pq_requeue env (snd (sendPacket env (snd (pq_next env r)) pk)) pk, n))
   \<and> pq_requeue env r3 pk =
       (if length (packets (priorityQueue r3)) < maxQueueSize (priorityQueue r3)
        then r3\<lparr>millis_calls := Suc (millis_calls r3),
               priorityQueue := (priorityQueue r3)
                 \<lparr>packets := packets (priorityQueue r3)
                     @ [\<lparr>packet = Some pk, enqueue_time = clock env (millis_calls r3),
                         entry_priority = calculatePriority (Some pk)\<rparr>],
                  stats := (stats (priorityQueue r3))
                     \<lparr>totalQueued := totalQueued (stats (priorityQueue r3)) + 1\<rparr>\<rparr>\<rparr>
        else r3\<lparr>millis_calls := Suc (millis_calls r3),
               priorityQueue := (priorityQueue r3)
                 \<lparr>stats := (stats (priorityQueue r3))
                     \<lparr>queueOverflows := queueOverflows (stats (priorityQueue r3)) + 1\<rparr>\<rparr>,
               metrics := (metrics r3)\<lparr>dropCount := dropCount (metrics r3) + 1\<rparr>,
               packetPool := packetPool r3 @ [Some pk]\<rparr>)
   \<and> (\<exists>new. sendPacket_calls (fst (pq_processQueuedPackets_count env r)) = sendPacket_calls r @ new
        \<and> all_ok (butlast new)
        \<and> snd (pq_processQueuedPackets_count env r) = of_nat (ok_count new)
        \<and> (new \<noteq> [] \<and> snd (hd new) \<noteq> ERRNO_OK \<longrightarrow>
             length new = 1 \<and> snd (pq_processQueuedPackets_count env r) = 0))
   \<and> (\<not> queue_empty (priorityQueue r)
        \<and> length (packets (priorityQueue r)) \<le> maxQueueSize (priorityQueue r) \<longrightarrow>
        length (packets (priorityQueue (snd (sendPacket env (snd (pq_next env r)) pk))))
        < maxQueueSize (priorityQueue (snd (sendPacket env (snd (pq_next env r)) pk))))
   \<and> (\<not> queue_empty (packetQueue f) \<and> fst (fifo_next env f) = Some pk
        \<and> fst (sendPacket env (snd (fifo_next env f)) pk) \<noteq> ERRNO_OK \<longrightarrow>
        fifo_process_loop env f
        = fifo_requeue env (snd (sendPacket env (snd (fifo_next env f)) pk)) pk)
   \<and> fifo_requeue env f3 pk =
       (if length (packets (packetQueue f3)) < maxQueueSize (packetQueue f3)
        then f3\<lparr>millis_calls := Suc (millis_calls f3),
               packetQueue := (packetQueue f3)
                 \<lparr>packets := packets (packetQueue f3)
                     @ [\<lparr>packet = Some pk, enqueue_time = clock env (millis_calls f3)\<rparr>],
                  stats := (stats (packetQueue f3))
                     \<lparr>totalQueued := totalQueued (stats (packetQueue f3)) + 1\<rparr>\<rparr>\<rparr>
        else f3\<lparr>millis_calls := Suc (millis_calls f3),
               packetQueue := (packetQueue f3)
                 \<lparr>stats := (stats (packetQueue f3))
                     \<lparr>queueOverflows := queueOverflows (stats (packetQueue f3)) + 1\<rparr>\<rparr>,
               packetPool := packetPool f3 @ [Some pk]\<rparr>)
   \<and> (\<exists>new. sendPacket_calls (fifo_processQueuedPackets env f) = sendPacket_calls f @ new
        \<and> all_ok (butlast new)
        \<and> (new \<noteq> [] \<and> snd (hd new) \<noteq> ERRNO_OK \<longrightarrow> length new = 1))
   \<and> (\<not> queue_empty (packetQueue f)
        \<and> length (packets (packetQueue f)) \<le> maxQueueSize (packetQueue f) \<longrightarrow>
        length (packets (packetQueue (snd (sendPacket env (snd (fifo_next env f)) pk))))
        < maxQueueSize (packetQueue (snd (sendPacket env (snd (fifo_next env f)) pk))))
   \<and> packetPool (snd (sendPacket env f pk))
       = (if disabled f \<or> payloadlen pk = 0 then packetPool f @ [Some pk] else packetPool f)"
  apply (intro conjI)
          apply (rule pq_fail_iteration)
         apply (rule pq_requeue_eq)
        apply (rule pq_cycle_calls)
       apply (rule pq_room_after_dequeue)
      apply (rule fifo_fail_iteration)
     apply (rule fifo_requeue_eq)
    apply (rule fifo_cycle_calls)
   apply (rule fifo_room_after_dequeue)
  apply (rule sendPacket_pool)
  done



theorem transmit_failure_requeues_and_stops_witness:
  "\<not> queue_empty (priorityQueue (priority_radio config_21_23 pq_one_queued))
   \<and> budget_left (env_failing 79200000) 79200000 (priority_radio config_21_23 pq_one_queued) 0
   \<and> fst (pq_next (env_failing 79200000) (priority_radio config_21_23 pq_one_queued))
       = Some (test_packet 1)
   \<and> fst (sendPacket (env_failing 79200000)
         (snd (pq_next (env_failing 79200000) (priority_radio config_21_23 pq_one_queued)))
         (test_packet 1)) = ERRNO_UNKNOWN
   \<and> snd (pq_process_loop (env_failing 79200000) 79200000
         (priority_radio config_21_23 pq_one_queued) 0) = 0
   \<and> packets (priorityQueue (fst (pq_process_loop (env_failing 79200000) 79200000
         (priority_radio config_21_23 pq_one_queued) 0)))
       = [\<lparr>packet = Some (test_packet 1), enqueue_time = 79200000, entry_priority = 1\<rparr>]
   \<and> length (packets (priorityQueue (priority_radio config_21_23 pq_one_queued)))
       \<le> maxQueueSize (priorityQueue (priority_radio config_21_23 pq_one_queued))
   \<and> packetPool (pq_requeue (env_failing 79200000)
         (priority_radio config_21_23 (pq_one_queued\<lparr>maxQueueSize := 0\<rparr>)) (test_packet 1))
       = [Some (test_packet 1)]
   \<and> \<not> queue_empty (packetQueue (fifo_radio config_21_23 one_queued))
   \<and> fst (fifo_next (env_failing 79200000) (fifo_radio config_21_23 one_queued))
       = Some (test_packet 1)
   \<and> packets (packetQueue (fifo_process_loop (env_failing 79200000)
         (fifo_radio config_21_23 one_queued)))
       = [\<lparr>packet = Some (test_packet 1), enqueue_time = 79200000\<rparr>]
   \<and> sendPacket_calls (fifo_process_loop (env_failing 79200000)
         (fifo_radio config_21_23 one_queued)) = [(test_packet 1, ERRNO_UNKNOWN)]"
proof -
  let ?E = "env_failing 79200000"
  let ?R = "priority_radio config_21_23 pq_one_queued"
  let ?F = "fifo_radio config_21_23 one_queued"
  have q: "pq_one_queued
           = \<lparr>packets = [\<lparr>packet = Some (test_packet 1), enqueue_time = 53000000,
                           entry_priority = 1\<rparr>],
              stats = \<lparr>totalQueued = 1, expiredPackets = 0, queueOverflows = 0,
                       totalQueueTime = 0, maxQueueTime = 0\<rparr>,
              maxQueueSize = 32, packetExpirySeconds = 3600\<rparr>"
    by (simp add: pq_one_queued_def pq_enqueue_def new_queue_def pq_push_def new_QueuedPacket_def
        calculatePriority_def test_packet_def)
  have q1: "one_queued
           = \<lparr>packets = [\<lparr>packet = Some (test_packet 1), enqueue_time = 53000000\<rparr>],
              stats = \<lparr>totalQueued = 1, expiredPackets = 0, queueOverflows = 0,
                       totalQueueTime = 0, maxQueueTime = 0\<rparr>,
              maxQueueSize = 32, packetExpirySeconds = 3600\<rparr>"
    by (simp add: one_queued_def enqueue_def new_queue_def)
  have cp: "calculatePriority (Some (test_packet i)) = 1" for i
    by (simp add: calculatePriority_def test_packet_def)
  have tp: "payloadlen (test_packet i) = 1" for i
    by (simp add: test_packet_def)
  have e [simp]: "clock ?E k = 79200000" "MAX_PACKETS_PER_CYCLE ?E = 5"
    "beginSending ?E p = payloadlen p + 16" "sendTo ?E k p nb = ERRNO_UNKNOWN" for k p nb
    by (simp_all add: env_failing_def env_at_def)
  have h1: "\<not> queue_empty (priorityQueue ?R)"
    by (simp add: queue_empty_def priority_radio_def q)
  have h2: "budget_left ?E 79200000 ?R 0"
    by (simp add: budget_left_def maxProcessTime_def)
  have h3: "fst (pq_next ?E ?R) = Some (test_packet 1)"
    by (simp add: pq_next_def millis_def priority_radio_def q pq_dequeue_def)
  have h4: "fst (sendPacket ?E (snd (pq_next ?E ?R)) (test_packet 1)) = ERRNO_UNKNOWN"
    by (simp add: sendPacket_def sendPacket_body_def pq_next_def millis_def priority_radio_def q
        pq_dequeue_def tp)
  have h5: "\<not> queue_empty (packetQueue ?F)"
    by (simp add: queue_empty_def fifo_radio_def q1)
  have h6: "fst (fifo_next ?E ?F) = Some (test_packet 1)"
    by (simp add: fifo_next_def millis_def fifo_radio_def q1 dequeue_def)
  have h7: "fst (sendPacket ?E (snd (fifo_next ?E ?F)) (test_packet 1)) = ERRNO_UNKNOWN"
    by (simp add: sendPacket_def sendPacket_body_def fifo_next_def millis_def fifo_radio_def q1
        dequeue_def tp)
  note t = transmit_failure_requeues_and_stops
             [of ?R ?E 79200000 0 "test_packet 1"
                 "priority_radio config_21_23 (pq_one_queued\<lparr>maxQueueSize := 0\<rparr>)"
                 ?F "snd (sendPacket ?E (snd (fifo_next ?E ?F)) (test_packet 1))"]
  have l: "pq_process_loop ?E 79200000 ?R 0
           = (pq_requeue ?E (snd (sendPacket ?E (snd (pq_next ?E ?R)) (test_packet 1)))
                (test_packet 1), 0)"
    using t h1 h2 h3 h4 by simp
  have l2: "fifo_process_loop ?E ?F
           = fifo_requeue ?E (snd (sendPacket ?E (snd (fifo_next ?E ?F)) (test_packet 1)))
                (test_packet 1)"
    using t h5 h6 h7 by simp
  have c1: "snd (pq_process_loop ?E 79200000 ?R 0) = 0" by (simp add: l)
  have c2: "packets (priorityQueue (fst (pq_process_loop ?E 79200000 ?R 0)))
       = [\<lparr>packet = Some (test_packet 1), enqueue_time = 79200000, entry_priority = 1\<rparr>]"
    unfolding l
    by (simp add: pq_requeue_def pq_enqueue_def pq_push_def new_QueuedPacket_def cp millis_def
        sendPacket_def sendPacket_body_def pq_next_def priority_radio_def q pq_dequeue_def
        pq_pop_def tp)
  have c3: "length (packets (priorityQueue ?R)) \<le> maxQueueSize (priorityQueue ?R)"
    by (simp add: priority_radio_def q)
  have c4: "packetPool (pq_requeue ?E
         (priority_radio config_21_23 (pq_one_queued\<lparr>maxQueueSize := 0\<rparr>)) (test_packet 1))
       = [Some (test_packet 1)]"
    by (simp add: pq_requeue_def pq_enqueue_def millis_def priority_radio_def q release_def)
  have c5: "packets (packetQueue (fifo_process_loop ?E ?F))
       = [\<lparr>packet = Some (test_packet 1), enqueue_time = 79200000\<rparr>]"
    unfolding l2
    by (simp add: fifo_requeue_def enqueue_def millis_def
        sendPacket_def sendPacket_body_def fifo_next_def fifo_radio_def q1 dequeue_def tp)
  have c6: "sendPacket_calls (fifo_process_loop ?E ?F) = [(test_packet 1, ERRNO_UNKNOWN)]"
    unfolding l2
    by (simp add: fifo_requeue_def enqueue_def millis_def
        sendPacket_def sendPacket_body_def fifo_next_def fifo_radio_def q1 dequeue_def tp)
  show ?thesis
    using h1 h2 h3 h4 h5 h6 c1 c2 c3 c4 c5 c6 by blast
qed


section \<open>Draining outside the window\<close>

lemma closed_15h: "\<not> isOperationAllowed config_21_23 54000000"
  by (simp add: isOperationAllowed_def config_21_23_def)

lemma drain_noop_when_disabled:
  assumes "\<not> has_lora (config r) \<or> \<not> time_window_enabled (lora (config r))"
  shows "fifo_processQueuedPackets env (r :: FifoRadio) = r"
  using assms by (auto simp: fifo_processQueuedPackets_def)

lemma pq_drain_noop_when_disabled:
  assumes "\<not> has_lora (config r) \<or> \<not> time_window_enabled (lora (config r))"
  shows "pq_processQueuedPackets_count env r = (r, 0)"
  using assms by (auto simp: pq_processQueuedPackets_count_def)

lemma time_drain_noop_when_disabled:
  assumes "\<not> has_lora (config r) \<or> \<not> time_window_enabled (lora (config r))"
  shows "time_processQueuedPackets (Suc n) env r = Some r"
  using assms by auto

text \<open>
  RadioInterfaceTime.cpp tests the window in \<open>processQueuedPackets\<close>: outside the window
  the call returns at once, having read the clock and nothing else.
\<close>

lemma time_drain_noop_when_closed:
  assumes "has_lora (config r)" "time_window_enabled (lora (config r))"
    and "\<not> isOperationAllowed (config r) (clock env (millis_calls r))"
  shows "time_processQueuedPackets (Suc n) env r = Some (r\<lparr>millis_calls := Suc (millis_calls r)\<rparr>)"
  using assms by (simp add: millis_def)

text \<open>
  Claim C7 asks that a drain call outside the window be a no-op. The
  \<open>processQueuedPackets\<close> of RadioInterfaceQueue.cpp and of RadioInterface.cpp test only
  whether the feature is enabled. At 15:00, outside the window 21:00-23:00, with one
  packet queued, each of them dequeues the packet and transmits it.
\<close>

theorem drain_transmits_in_closed_window:
  "\<not> isOperationAllowed config_21_23 54000000
   \<and> sendPacket_calls (pq_processQueuedPackets (env_at 54000000)
        (priority_radio config_21_23 pq_one_queued)) = [(test_packet 1, ERRNO_OK)]
   \<and> packets (priorityQueue (pq_processQueuedPackets (env_at 54000000)
        (priority_radio config_21_23 pq_one_queued))) = []
   \<and> packets (priorityQueue (priority_radio config_21_23 pq_one_queued)) \<noteq> []
   \<and> snd (pq_processQueuedPackets_count (env_at 54000000)
        (priority_radio config_21_23 pq_one_queued)) = 1
   \<and> sendPacket_calls (fifo_processQueuedPackets (env_at 54000000)
        (fifo_radio config_21_23 one_queued)) = [(test_packet 1, ERRNO_OK)]
   \<and> packets (packetQueue (fifo_processQueuedPackets (env_at 54000000)
        (fifo_radio config_21_23 one_queued))) = []
   \<and> packets (packetQueue (fifo_radio config_21_23 one_queued)) \<noteq> []"
  apply (intro conjI)
  apply (rule closed_15h)
  apply (simp_all add: pq_processQueuedPackets_def pq_processQueuedPackets_count_def
      fifo_processQueuedPackets_def config_21_23_def env_at_def priority_radio_def fifo_radio_def
      one_queued_def pq_one_queued_def new_queue_def enqueue_def pq_enqueue_def pq_push_def
      new_QueuedPacket_def millis_def cleanExpired_def pq_cleanExpired_def
      pq_cleanExpired_loop.simps pq_pop_def release_def
      pq_process_loop.simps fifo_process_loop.simps queue_empty_def maxProcessTime_def
      dequeue_def pq_dequeue_def sendPacket_def sendPacket_body_def test_packet_def
      record_queue_time_def count_sent_def Let_def)
  done

theorem drain_transmits_in_closed_window_witness:
  "length (sendPacket_calls (pq_processQueuedPackets (env_at 54000000)
       (priority_radio config_21_23 pq_one_queued))) = 1
   \<and> length (sendPacket_calls (fifo_processQueuedPackets (env_at 54000000)
       (fifo_radio config_21_23 one_queued))) = 1
   \<and> priorityQueue (pq_processQueuedPackets (env_at 54000000)
       (priority_radio config_21_23 pq_one_queued))
     \<noteq> priorityQueue (priority_radio config_21_23 pq_one_queued)"
  using drain_transmits_in_closed_window by auto



section \<open>The bounds of a drain cycle\<close>

lemma cleanExpiredPackets_config [simp]:
  "config (cleanExpiredPackets env r) = config r"
  by (auto simp: cleanExpiredPackets_def millis_def split: prod.splits)

lemma time_send_never_returns_aux:
  assumes op: "\<And>k. isOperationAllowed cfg (clock env k)"
  shows "(\<forall>r p. config r = cfg \<longrightarrow> time_send n env r p = None)
       \<and> (\<forall>r r'. config r = cfg \<longrightarrow> time_processQueuedPackets n env r = Some r'
              \<longrightarrow> config r' = cfg)
       \<and> (\<forall>r r'. config r = cfg \<longrightarrow> time_process_loop n env r = Some r'
              \<longrightarrow> config r' = cfg)"
proof (induction n)
  case 0
  show ?case by simp
next
  case (Suc n)
  then have s: "\<And>r p. config r = cfg \<Longrightarrow> time_send n env r p = None"
    and pr: "\<And>r r'. config r = cfg \<Longrightarrow> time_processQueuedPackets n env r = Some r'
              \<Longrightarrow> config r' = cfg"
    and lp: "\<And>r r'. config r = cfg \<Longrightarrow> time_process_loop n env r = Some r'
              \<Longrightarrow> config r' = cfg"
    by blast+
  have a: "time_send (Suc n) env r p = None" if c: "config r = cfg" for r p
  proof (cases "has_lora (config r) \<and> time_window_enabled (lora (config r))")
    case False
    then show ?thesis using s [OF c] by auto
  next
    case True
    show ?thesis
    proof (cases "time_processQueuedPackets n env (r\<lparr>millis_calls := Suc (millis_calls r)\<rparr>)")
      case None
      then show ?thesis using True op c by (simp add: millis_def)
    next
      case (Some r2)
      then have "config r2 = cfg" using pr [of "r\<lparr>millis_calls := Suc (millis_calls r)\<rparr>" r2] c by simp
      then show ?thesis using True op c Some s [of r2 p] by (simp add: millis_def)
    qed
  qed
  have b: "config r' = cfg"
    if c: "config r = cfg" and t: "time_processQueuedPackets (Suc n) env r = Some r'" for r r'
  proof (cases "\<not> has_lora (config r) \<or> \<not> time_window_enabled (lora (config r))")
    case True
    then show ?thesis using t c by auto
  next
    case False
    then have "time_process_loop n env
                 (cleanExpiredPackets env (r\<lparr>millis_calls := Suc (millis_calls r)\<rparr>)) = Some r'"
      using t op c by (simp add: millis_def)
    then show ?thesis
      using lp [of "cleanExpiredPackets env (r\<lparr>millis_calls := Suc (millis_calls r)\<rparr>)" r'] c
      by simp
  qed
  have d: "config r' = cfg"
    if c: "config r = cfg" and t: "time_process_loop (Suc n) env r = Some r'" for r r'
  proof (cases "packetQueue_member r")
    case Nil
    then show ?thesis using t c by simp
  next
    case (Cons qp rest)
    then show ?thesis using t s [OF c, of "packet qp"] by simp
  qed
  show ?case using a b d by blast
qed

lemma time_send_never_returns:
  assumes "\<And>k. isOperationAllowed (config r) (clock env k)"
  shows "time_send n env r p = None"
  using time_send_never_returns_aux [of "config r" env n, OF assms] by blast

lemma time_send_never_returns_disabled:
  "\<not> (has_lora (config r) \<and> time_window_enabled (lora (config r))) \<Longrightarrow>
   time_send n env r p = None"
  by (induction n) auto

lemma time_drain_never_returns:
  assumes op: "\<And>k. isOperationAllowed (config r) (clock env k)"
    and en: "has_lora (config r)" "time_window_enabled (lora (config r))"
    and ne: "packetQueue_member (cleanExpiredPackets env (r\<lparr>millis_calls := Suc (millis_calls r)\<rparr>)) \<noteq> []"
  shows "time_processQueuedPackets n env r = None"
proof (cases n)
  case 0
  then show ?thesis by simp
next
  case (Suc m)
  let ?r1 = "cleanExpiredPackets env (r\<lparr>millis_calls := Suc (millis_calls r)\<rparr>)"
  have p: "time_processQueuedPackets n env r = time_process_loop m env ?r1"
    using Suc en op by (simp add: millis_def)
  show ?thesis
  proof (cases m)
    case 0
    then show ?thesis using p by simp
  next
    case (Suc k)
    obtain qp rest where q: "packetQueue_member ?r1 = qp # rest"
      using ne by (cases "packetQueue_member ?r1") auto
    have "time_send k env ?r1 (packet qp) = None"
      using op by (intro time_send_never_returns) simp
    then show ?thesis using p Suc q by simp
  qed
qed


text \<open>
  RadioInterfaceQueue.cpp keeps both budgets: a cycle that starts with \<open>packetsProcessed\<close>
  at 0 calls \<open>sendPacket\<close> at most \<open>MAX_PACKETS_PER_CYCLE\<close> times, and the loop is left as
  soon as the clock shows 100 ms or more since the start (\<open>pq_loop_budget\<close>).
\<close>

lemma pq_process_loop_attempts:
  "unat n \<le> unat (MAX_PACKETS_PER_CYCLE env) \<longrightarrow>
   length (sendPacket_calls (fst (pq_process_loop env st r n))) + unat n
   \<le> length (sendPacket_calls r) + unat (MAX_PACKETS_PER_CYCLE env)"
proof (rule pq_process_loop_rule
         [where Q = "\<lambda>r n res. unat n \<le> unat (MAX_PACKETS_PER_CYCLE env) \<longrightarrow>
                       length (sendPacket_calls (fst res)) + unat n
                       \<le> length (sendPacket_calls r) + unat (MAX_PACKETS_PER_CYCLE env)"])
  fix r :: PriorityRadio and n :: u32
  show "unat n \<le> unat (MAX_PACKETS_PER_CYCLE env) \<longrightarrow>
        length (sendPacket_calls (fst (r, n))) + unat n
        \<le> length (sendPacket_calls r) + unat (MAX_PACKETS_PER_CYCLE env)"
    by simp
next
  fix r :: PriorityRadio and n :: u32
  show "unat n \<le> unat (MAX_PACKETS_PER_CYCLE env) \<longrightarrow>
        length (sendPacket_calls (fst (r\<lparr>millis_calls := Suc (millis_calls r)\<rparr>, n))) + unat n
        \<le> length (sendPacket_calls r) + unat (MAX_PACKETS_PER_CYCLE env)"
    by simp
next
  fix r r2 :: PriorityRadio and n :: u32 and res
  assume "pq_next env r = (None, r2)"
    and "unat n \<le> unat (MAX_PACKETS_PER_CYCLE env) \<longrightarrow>
         length (sendPacket_calls (fst res)) + unat n
         \<le> length (sendPacket_calls r2) + unat (MAX_PACKETS_PER_CYCLE env)"
  then show "unat n \<le> unat (MAX_PACKETS_PER_CYCLE env) \<longrightarrow>
         length (sendPacket_calls (fst res)) + unat n
         \<le> length (sendPacket_calls r) + unat (MAX_PACKETS_PER_CYCLE env)"
    by (simp add: pq_next_calls)
next
  fix r r2 :: PriorityRadio and n :: u32 and pk
  assume bl: "budget_left env st r n" and nx: "pq_next env r = (Some pk, r2)"
  have "unat n < unat (MAX_PACKETS_PER_CYCLE env)"
    using bl by (simp add: budget_left_def word_less_nat_alt)
  then show "unat n \<le> unat (MAX_PACKETS_PER_CYCLE env) \<longrightarrow>
        length (sendPacket_calls (fst (pq_requeue env (snd (sendPacket env r2 pk)) pk, n))) + unat n
        \<le> length (sendPacket_calls r) + unat (MAX_PACKETS_PER_CYCLE env)"
    using nx by (simp add: sendPacket_calls_sendPacket pq_next_calls)
next
  fix r r2 :: PriorityRadio and n :: u32 and pk res
  assume bl: "budget_left env st r n" and nx: "pq_next env r = (Some pk, r2)"
    and ih: "unat (n + 1) \<le> unat (MAX_PACKETS_PER_CYCLE env) \<longrightarrow>
         length (sendPacket_calls (fst res)) + unat (n + 1)
         \<le> length (sendPacket_calls (count_sent (snd (sendPacket env r2 pk))
               (getLastPriority env (priorityQueue r2) > 2)))
           + unat (MAX_PACKETS_PER_CYCLE env)"
  have lt: "unat n < unat (MAX_PACKETS_PER_CYCLE env)"
    using bl by (simp add: budget_left_def word_less_nat_alt)
  have "unat n + 1 < 2 ^ 32"
    using lt unsigned_less [of "MAX_PACKETS_PER_CYCLE env", where 'a = nat] by simp
  then have s: "unat (n + 1) = unat n + 1"
    by (simp add: unat_word_ariths)
  show "unat n \<le> unat (MAX_PACKETS_PER_CYCLE env) \<longrightarrow>
         length (sendPacket_calls (fst res)) + unat n
         \<le> length (sendPacket_calls r) + unat (MAX_PACKETS_PER_CYCLE env)"
    using ih lt s nx by (simp add: sendPacket_calls_sendPacket pq_next_calls)
qed

lemma pq_cycle_attempts_bounded:
  "length (sendPacket_calls (fst (pq_processQueuedPackets_count env r)))
   \<le> length (sendPacket_calls r) + unat (MAX_PACKETS_PER_CYCLE env)"
proof (cases "\<not> has_lora (config r) \<or> \<not> time_window_enabled (lora (config r))")
  case True
  then show ?thesis by (auto simp: pq_processQueuedPackets_count_def)
next
  case False
  obtain q' pool' where c: "pq_cleanExpired (priorityQueue r) (clock env (millis_calls r)) (packetPool r)
                            = (q', pool')"
    by (cases "pq_cleanExpired (priorityQueue r) (clock env (millis_calls r)) (packetPool r)")
  have "pq_processQueuedPackets_count env r
        = pq_process_loop env (clock env (Suc (millis_calls r)))
            (r\<lparr>priorityQueue := q', packetPool := pool', millis_calls := Suc (Suc (millis_calls r))\<rparr>) 0"
    using False c by (simp add: pq_processQueuedPackets_count_def millis_def)
  then show ?thesis
    using pq_process_loop_attempts
            [of 0 env "clock env (Suc (millis_calls r))"
                "r\<lparr>priorityQueue := q', packetPool := pool', millis_calls := Suc (Suc (millis_calls r))\<rparr>"]
    by simp
qed

text \<open>
  Claim C8 asks that every drain cycle be bounded by a packet budget and a time budget
  and that it terminate. In RadioInterfaceTime.cpp \<open>processQueuedPackets\<close> calls \<open>send\<close>
  for the packet at the front and \<open>send\<close>, inside the window, calls
  \<open>processQueuedPackets\<close> and then itself: with one packet queued at 22:00 in the window
  21:00-23:00 the drain call does not return within any depth of calls. In
  RadioInterface.cpp the loop has neither budget: with a clock that advances by a second
  at every reading it sends all three queued packets, where the loop of
  RadioInterfaceQueue.cpp, under the same clock, stops before the first.
\<close>

theorem drain_cycle_not_bounded:
  "(\<forall>n. time_processQueuedPackets n (env_at 79200000)
          (time_radio config_21_23
             [\<lparr>packet = Some (test_packet 1), enqueue_time = 79000000\<rparr>]) = None)
   \<and> sendPacket_calls (fifo_processQueuedPackets env_slow
        (fifo_radio config_21_23 (enqueue_all (new_queue 32 3600) three_packets 79000000)))
      = [(test_packet 0, ERRNO_OK), (test_packet 1, ERRNO_OK), (test_packet 2, ERRNO_OK)]
   \<and> millis_calls (fifo_processQueuedPackets env_slow
        (fifo_radio config_21_23 (enqueue_all (new_queue 32 3600) three_packets 79000000))) = 4
   \<and> clock env_slow 3 - clock env_slow 0 = 3000
   \<and> sendPacket_calls (pq_processQueuedPackets env_slow
        (priority_radio config_21_23
           (pq_enqueue_all (new_queue 32 3600) three_packets 79000000))) = []"
proof -
  let ?r = "time_radio config_21_23 [\<lparr>packet = Some (test_packet 1), enqueue_time = 79000000\<rparr>]"
  have op: "isOperationAllowed (config ?r) (clock (env_at 79200000) k)" for k
    by (simp add: time_radio_def env_at_def isOperationAllowed_def config_21_23_def)
  have en: "has_lora (config ?r)" "time_window_enabled (lora (config ?r))"
    by (simp_all add: time_radio_def config_21_23_def)
  have ne: "packetQueue_member (cleanExpiredPackets (env_at 79200000)
              (?r\<lparr>millis_calls := Suc (millis_calls ?r)\<rparr>)) \<noteq> []"
    by (simp add: cleanExpiredPackets_def time_radio_def config_21_23_def millis_def env_at_def)
  have a: "\<forall>n. time_processQueuedPackets n (env_at 79200000) ?r = None"
    using time_drain_never_returns [of ?r "env_at 79200000", OF op en ne] by blast
  have b: "sendPacket_calls (fifo_processQueuedPackets env_slow
        (fifo_radio config_21_23 (enqueue_all (new_queue 32 3600) three_packets 79000000)))
      = [(test_packet 0, ERRNO_OK), (test_packet 1, ERRNO_OK), (test_packet 2, ERRNO_OK)]"
     "millis_calls (fifo_processQueuedPackets env_slow
        (fifo_radio config_21_23 (enqueue_all (new_queue 32 3600) three_packets 79000000))) = 4"
    by (simp_all add: fifo_processQueuedPackets_def config_21_23_def env_slow_def env_at_def
        fifo_radio_def three_packets_def new_queue_def enqueue_def millis_def cleanExpired_def
        release_def fifo_process_loop.simps queue_empty_def dequeue_def sendPacket_def
        sendPacket_body_def test_packet_def record_queue_time_def Let_def)
  have c: "clock env_slow 3 - clock env_slow 0 = 3000"
    by (simp add: env_slow_def env_at_def)
  have d: "sendPacket_calls (pq_processQueuedPackets env_slow
        (priority_radio config_21_23
           (pq_enqueue_all (new_queue 32 3600) three_packets 79000000))) = []"
    by (simp add: pq_processQueuedPackets_def pq_processQueuedPackets_count_def config_21_23_def
        env_slow_def env_at_def priority_radio_def three_packets_def new_queue_def pq_enqueue_def
        pq_push_def new_QueuedPacket_def millis_def pq_cleanExpired_def
        pq_cleanExpired_loop.simps pq_pop_def release_def pq_process_loop.simps queue_empty_def
        maxProcessTime_def less_QueuedPacket_def Let_def)
  show ?thesis using a b c d by blast
qed

theorem drain_cycle_not_bounded_witness:
  "time_processQueuedPackets 1000 (env_at 79200000)
     (time_radio config_21_23 [\<lparr>packet = Some (test_packet 1), enqueue_time = 79000000\<rparr>])
   = None
   \<and> length (sendPacket_calls (fifo_processQueuedPackets env_slow
        (fifo_radio config_21_23 (enqueue_all (new_queue 32 3600) three_packets 79000000)))) = 3"
  using drain_cycle_not_bounded by simp



section \<open>The override and the admission decision\<close>



lemma outside_window_disabled:
  "\<not> (has_lora (config r) \<and> time_window_enabled (lora (config r))) \<Longrightarrow>
   outside_window env r = (False, r)"
  by (auto simp: outside_window_def)












section \<open>The statistics\<close>

lemma enqueue_counters:
  "counters_step (queue_counters q) (queue_counters (snd (enqueue q p now)))"
  by (auto simp: counters_step_def queue_counters_def enqueue_def intro: bexI [of _ 0])

lemma pq_enqueue_counters:
  "counters_step (queue_counters q) (queue_counters (snd (pq_enqueue q p now)))"
  by (auto simp: counters_step_def queue_counters_def pq_enqueue_def pq_push_def
      intro: bexI [of _ 0])

lemma dequeue_counters:
  "loop_step (queue_counters q) (queue_counters (snd (dequeue q now)))"
  by (cases "packets q")
     (auto simp: loop_step_def queue_counters_def dequeue_def record_queue_time_def Let_def)

lemma pq_dequeue_counters:
  "loop_step (queue_counters q) (queue_counters (snd (pq_dequeue q now)))"
proof (cases "pq_top (packets q)")
  case None
  then show ?thesis by (simp add: loop_step_def queue_counters_def pq_dequeue_def)
next
  case (Some t)
  then show ?thesis
    using pq_pop_length [OF Some]
    by (simp add: loop_step_def queue_counters_def pq_dequeue_def record_queue_time_def Let_def)
qed

lemma loop_step_counters_step: "loop_step c c' \<Longrightarrow> counters_step c c'"
  by (auto simp: loop_step_def counters_step_def intro: bexI [of _ 0])

lemma cleanExpired_counters:
  "queue_counters (fst (cleanExpired q now pool))
   = (totalQueued (stats q),
      expiredPackets (stats q)
        + of_nat (length (filter (expired_at now (packetExpirySeconds q)) (packets q))),
      queueOverflows (stats q),
      length (packets q) - length (filter (expired_at now (packetExpirySeconds q)) (packets q)))"
  using sum_length_filter_compl [of "expired_at now (packetExpirySeconds q)" "packets q"]
  by (simp add: cleanExpired_def cleanExpired_loop_eq queue_counters_def)

lemma pq_cleanExpired_counters:
  "queue_counters (fst (pq_cleanExpired q now pool))
   = (totalQueued (stats q),
      expiredPackets (stats q)
        + of_nat (length (filter (expired_at now (packetExpirySeconds q)) (packets q))),
      queueOverflows (stats q),
      length (packets q) - length (filter (expired_at now (packetExpirySeconds q)) (packets q)))"
proof -
  from pq_cleanExpired_spec [of q now pool] obtain rel where
    e: "pq_cleanExpired q now pool
         = (q\<lparr>packets := packets (fst (pq_cleanExpired q now pool)),
               stats := (stats q)\<lparr>expiredPackets := expiredPackets (stats q)
                  + of_nat (length (filter (expired_at now (packetExpirySeconds q)) (packets q)))\<rparr>\<rparr>,
            pool @ rel)"
    and m: "mset (packets (fst (pq_cleanExpired q now pool)))
          = mset (filter (\<lambda>e. \<not> expired_at now (packetExpirySeconds q) e) (packets q))"
    by blast
  have l: "length (packets (fst (pq_cleanExpired q now pool)))
           = length (filter (\<lambda>e. \<not> expired_at now (packetExpirySeconds q) e) (packets q))"
    using m by (metis size_mset)
  have s: "stats (fst (pq_cleanExpired q now pool))
           = (stats q)\<lparr>expiredPackets := expiredPackets (stats q)
                  + of_nat (length (filter (expired_at now (packetExpirySeconds q)) (packets q)))\<rparr>"
    by (subst e) simp
  show ?thesis
    using sum_length_filter_compl [of "expired_at now (packetExpirySeconds q)" "packets q"] l s
    by (simp add: queue_counters_def)
qed


lemma loop_step_refl [simp]: "loop_step c c"
  by (cases c) (simp add: loop_step_def)

lemma loop_step_after_dequeue:
  "loop_step c1 c' \<Longrightarrow> fst c1 = fst c \<Longrightarrow> fst (snd c1) = fst (snd c)
   \<Longrightarrow> fst (snd (snd c1)) = fst (snd (snd c)) \<Longrightarrow> snd (snd (snd c1)) \<le> snd (snd (snd c))
   \<Longrightarrow> loop_step c c'"
  by (cases c; cases c1; cases c') (auto simp: loop_step_def)

lemma fifo_next_counters:
  assumes "fifo_next env r = (pkt, r2)"
  shows "fst (queue_counters (packetQueue r2)) = fst (queue_counters (packetQueue r))"
    "fst (snd (queue_counters (packetQueue r2))) = fst (snd (queue_counters (packetQueue r)))"
    "fst (snd (snd (queue_counters (packetQueue r2))))
     = fst (snd (snd (queue_counters (packetQueue r))))"
    "snd (snd (snd (queue_counters (packetQueue r2))))
     \<le> snd (snd (snd (queue_counters (packetQueue r))))"
  using assms
  by (cases "packets (packetQueue r)";
      auto simp: fifo_next_def millis_def dequeue_def queue_counters_def record_queue_time_def
        Let_def)+

lemma pq_next_counters:
  assumes "pq_next env r = (pkt, r2)"
  shows "fst (queue_counters (priorityQueue r2)) = fst (queue_counters (priorityQueue r))"
    "fst (snd (queue_counters (priorityQueue r2))) = fst (snd (queue_counters (priorityQueue r)))"
    "fst (snd (snd (queue_counters (priorityQueue r2))))
     = fst (snd (snd (queue_counters (priorityQueue r))))"
    "snd (snd (snd (queue_counters (priorityQueue r2))))
     \<le> snd (snd (snd (queue_counters (priorityQueue r))))"
proof -
  have e: "priorityQueue r2
        = snd (pq_dequeue (priorityQueue r) (clock env (Suc (millis_calls r))))"
    using assms by (auto simp: pq_next_def millis_def split: prod.splits)
  have d: "totalQueued (stats (snd (pq_dequeue q now))) = totalQueued (stats q)
         \<and> expiredPackets (stats (snd (pq_dequeue q now))) = expiredPackets (stats q)
         \<and> queueOverflows (stats (snd (pq_dequeue q now))) = queueOverflows (stats q)
         \<and> length (packets (snd (pq_dequeue q now))) \<le> length (packets q)"
    for q :: PriorityPacketQueue and now
  proof (cases "pq_top (packets q)")
    case None
    then show ?thesis by (simp add: pq_dequeue_def)
  next
    case (Some t)
    then show ?thesis
      using pq_pop_length [OF Some]
      by (simp add: pq_dequeue_def record_queue_time_def Let_def)
  qed
  show "fst (queue_counters (priorityQueue r2)) = fst (queue_counters (priorityQueue r))"
    "fst (snd (queue_counters (priorityQueue r2))) = fst (snd (queue_counters (priorityQueue r)))"
    "fst (snd (snd (queue_counters (priorityQueue r2))))
     = fst (snd (snd (queue_counters (priorityQueue r))))"
    "snd (snd (snd (queue_counters (priorityQueue r2))))
     \<le> snd (snd (snd (queue_counters (priorityQueue r))))"
    using d [of "priorityQueue r" "clock env (Suc (millis_calls r))"]
    by (simp_all add: e queue_counters_def)
qed

lemma fifo_requeue_counters:
  assumes ne: "\<not> queue_empty (packetQueue r)" and nx: "fifo_next env r = (pkt, r2)"
    and q: "packetQueue r3 = packetQueue r2"
  shows "loop_step (queue_counters (packetQueue r))
           (queue_counters (packetQueue (fifo_requeue env r3 pk)))"
  using fifo_next_counters [OF nx] fifo_next_shorter [OF ne nx] q
  by (auto simp: fifo_requeue_eq loop_step_def queue_counters_def)

lemma pq_requeue_counters:
  assumes ne: "\<not> queue_empty (priorityQueue r)" and nx: "pq_next env r = (pkt, r2)"
    and q: "priorityQueue r3 = priorityQueue r2"
  shows "loop_step (queue_counters (priorityQueue r))
           (queue_counters (priorityQueue (pq_requeue env r3 pk)))"
  using pq_next_counters [OF nx] pq_next_shorter [OF ne nx] q
  by (auto simp: pq_requeue_eq loop_step_def queue_counters_def)

lemma fifo_process_loop_counters:
  "loop_step (queue_counters (packetQueue r))
     (queue_counters (packetQueue (fifo_process_loop env r)))"
proof (rule fifo_process_loop_rule
         [where Q = "\<lambda>r r'. loop_step (queue_counters (packetQueue r))
                               (queue_counters (packetQueue r'))"])
  fix r :: FifoRadio
  show "loop_step (queue_counters (packetQueue r)) (queue_counters (packetQueue r))" by simp
next
  fix r r2 r' :: FifoRadio
  assume nx: "fifo_next env r = (None, r2)"
    and ih: "loop_step (queue_counters (packetQueue r2)) (queue_counters (packetQueue r'))"
  show "loop_step (queue_counters (packetQueue r)) (queue_counters (packetQueue r'))"
    by (rule loop_step_after_dequeue [OF ih fifo_next_counters [OF nx]])
next
  fix r r2 :: FifoRadio and pk
  assume "\<not> queue_empty (packetQueue r)" and "fifo_next env r = (Some pk, r2)"
  then show "loop_step (queue_counters (packetQueue r))
          (queue_counters (packetQueue (fifo_requeue env (snd (sendPacket env r2 pk)) pk)))"
    by (intro fifo_requeue_counters) simp_all
next
  fix r r2 r' :: FifoRadio and pk
  assume nx: "fifo_next env r = (Some pk, r2)"
    and "loop_step (queue_counters (packetQueue (snd (sendPacket env r2 pk))))
           (queue_counters (packetQueue r'))"
  then have ih: "loop_step (queue_counters (packetQueue r2)) (queue_counters (packetQueue r'))"
    by simp
  show "loop_step (queue_counters (packetQueue r)) (queue_counters (packetQueue r'))"
    by (rule loop_step_after_dequeue [OF ih fifo_next_counters [OF nx]])
qed

lemma pq_process_loop_counters:
  "loop_step (queue_counters (priorityQueue r))
     (queue_counters (priorityQueue (fst (pq_process_loop env st r n))))"
proof (rule pq_process_loop_rule
         [where Q = "\<lambda>r n res. loop_step (queue_counters (priorityQueue r))
                               (queue_counters (priorityQueue (fst res)))"])
  fix r :: PriorityRadio and n :: u32
  show "loop_step (queue_counters (priorityQueue r)) (queue_counters (priorityQueue (fst (r, n))))"
    by simp
next
  fix r :: PriorityRadio and n :: u32
  show "loop_step (queue_counters (priorityQueue r))
          (queue_counters (priorityQueue (fst (r\<lparr>millis_calls := Suc (millis_calls r)\<rparr>, n))))"
    by simp
next
  fix r r2 :: PriorityRadio and n :: u32 and res
  assume nx: "pq_next env r = (None, r2)"
    and ih: "loop_step (queue_counters (priorityQueue r2)) (queue_counters (priorityQueue (fst res)))"
  show "loop_step (queue_counters (priorityQueue r)) (queue_counters (priorityQueue (fst res)))"
    by (rule loop_step_after_dequeue [OF ih pq_next_counters [OF nx]])
next
  fix r r2 :: PriorityRadio and n :: u32 and pk
  assume "\<not> queue_empty (priorityQueue r)" and "pq_next env r = (Some pk, r2)"
  then show "loop_step (queue_counters (priorityQueue r))
          (queue_counters (priorityQueue (fst (pq_requeue env (snd (sendPacket env r2 pk)) pk, n))))"
    using pq_requeue_counters [of r env "Some pk" r2 "snd (sendPacket env r2 pk)" pk] by simp
next
  fix r r2 :: PriorityRadio and n :: u32 and pk res
  assume nx: "pq_next env r = (Some pk, r2)"
    and "loop_step (queue_counters (priorityQueue (count_sent (snd (sendPacket env r2 pk))
               (getLastPriority env (priorityQueue r2) > 2))))
           (queue_counters (priorityQueue (fst res)))"
  then have ih: "loop_step (queue_counters (priorityQueue r2))
                   (queue_counters (priorityQueue (fst res)))"
    by simp
  show "loop_step (queue_counters (priorityQueue r)) (queue_counters (priorityQueue (fst res)))"
    by (rule loop_step_after_dequeue [OF ih pq_next_counters [OF nx]])
qed


lemma counters_step_refl [simp]: "counters_step c c"
  by (cases c) (auto simp: counters_step_def intro: bexI [of _ 0])

lemma counters_step_clean_then_loop:
  assumes "k \<le> n" and "loop_step (tq, ex + of_nat k, ov, n - k) c'"
  shows "counters_step (tq, ex, ov, n) c'"
  using assms by (cases c') (auto simp: counters_step_def loop_step_def intro!: bexI [of _ k])

lemma fifo_drain_counters:
  "counters_step (queue_counters (packetQueue r))
     (queue_counters (packetQueue (fifo_processQueuedPackets env r)))"
proof (cases "\<not> has_lora (config r) \<or> \<not> time_window_enabled (lora (config r))")
  case True
  then show ?thesis by (auto simp: fifo_processQueuedPackets_def)
next
  case False
  let ?now = "clock env (millis_calls r)"
  let ?k = "length (filter (expired_at ?now (packetExpirySeconds (packetQueue r)))
                      (packets (packetQueue r)))"
  obtain q' pool' where c: "cleanExpired (packetQueue r) ?now (packetPool r) = (q', pool')"
    by (cases "cleanExpired (packetQueue r) ?now (packetPool r)")
  let ?r1 = "r\<lparr>millis_calls := Suc (millis_calls r), packetQueue := q', packetPool := pool'\<rparr>"
  have u: "fifo_processQueuedPackets env r = fifo_process_loop env ?r1"
    using False c by (simp add: fifo_processQueuedPackets_def millis_def)
  have q1: "queue_counters (packetQueue ?r1)
            = (totalQueued (stats (packetQueue r)),
               expiredPackets (stats (packetQueue r)) + of_nat ?k,
               queueOverflows (stats (packetQueue r)),
               length (packets (packetQueue r)) - ?k)"
    using cleanExpired_counters [of "packetQueue r" ?now "packetPool r"] c by simp
  have "loop_step (queue_counters (packetQueue ?r1))
          (queue_counters (packetQueue (fifo_process_loop env ?r1)))"
    by (rule fifo_process_loop_counters)
  then have "counters_step
               (totalQueued (stats (packetQueue r)), expiredPackets (stats (packetQueue r)),
                queueOverflows (stats (packetQueue r)), length (packets (packetQueue r)))
               (queue_counters (packetQueue (fifo_process_loop env ?r1)))"
    unfolding q1 by (intro counters_step_clean_then_loop [of ?k]) simp_all
  then show ?thesis unfolding u by (simp add: queue_counters_def)
qed

lemma pq_drain_counters:
  "counters_step (queue_counters (priorityQueue r))
     (queue_counters (priorityQueue (pq_processQueuedPackets env r)))"
proof (cases "\<not> has_lora (config r) \<or> \<not> time_window_enabled (lora (config r))")
  case True
  then show ?thesis
    by (auto simp: pq_processQueuedPackets_def pq_processQueuedPackets_count_def)
next
  case False
  let ?now = "clock env (millis_calls r)"
  let ?k = "length (filter (expired_at ?now (packetExpirySeconds (priorityQueue r)))
                      (packets (priorityQueue r)))"
  obtain q' pool' where c: "pq_cleanExpired (priorityQueue r) ?now (packetPool r) = (q', pool')"
    by (cases "pq_cleanExpired (priorityQueue r) ?now (packetPool r)")
  let ?r1 = "r\<lparr>priorityQueue := q', packetPool := pool',
               millis_calls := Suc (Suc (millis_calls r))\<rparr>"
  let ?st = "clock env (Suc (millis_calls r))"
  have u: "pq_processQueuedPackets env r = fst (pq_process_loop env ?st ?r1 0)"
    using False c
    by (simp add: pq_processQueuedPackets_def pq_processQueuedPackets_count_def millis_def)
  have q1: "queue_counters (priorityQueue ?r1)
            = (totalQueued (stats (priorityQueue r)),
               expiredPackets (stats (priorityQueue r)) + of_nat ?k,
               queueOverflows (stats (priorityQueue r)),
               length (packets (priorityQueue r)) - ?k)"
    using pq_cleanExpired_counters [of "priorityQueue r" ?now "packetPool r"] c by simp
  have "loop_step (queue_counters (priorityQueue ?r1))
          (queue_counters (priorityQueue (fst (pq_process_loop env ?st ?r1 0))))"
    by (rule pq_process_loop_counters)
  then have "counters_step
               (totalQueued (stats (priorityQueue r)), expiredPackets (stats (priorityQueue r)),
                queueOverflows (stats (priorityQueue r)), length (packets (priorityQueue r)))
               (queue_counters (priorityQueue (fst (pq_process_loop env ?st ?r1 0))))"
    unfolding q1 by (intro counters_step_clean_then_loop [of ?k]) simp_all
  then show ?thesis unfolding u by (simp add: queue_counters_def)
qed

lemma pq_clear_loop_spec:
  "\<exists>rel. pq_clear_loop pkts pool = ([], pool @ rel) \<and> mset rel = mset (map packet pkts)"
proof (induction pkts pool rule: pq_clear_loop.induct)
  case (1 pkts pool)
  show ?case
  proof (cases "pq_top pkts")
    case None
    then show ?thesis
      by (subst pq_clear_loop.simps) (simp add: pq_top_None)
  next
    case (Some t)
    from "1.IH" [OF Some] obtain rel where
      r: "pq_clear_loop (pq_pop pkts) (release pool (packet t)) = ([], release pool (packet t) @ rel)"
      and m: "mset rel = mset (map packet (pq_pop pkts))"
      by blast
    have u: "pq_clear_loop pkts pool = pq_clear_loop (pq_pop pkts) (release pool (packet t))"
      using Some by (subst pq_clear_loop.simps) simp
    have "mset (map packet pkts) = add_mset (packet t) (mset (map packet (pq_pop pkts)))"
      using pq_pop_mset [OF Some] by (metis image_mset_add_mset mset_map)
    then show ?thesis
      unfolding u r using m
      by (intro exI [of _ "packet t # rel"]) (simp add: release_def)
  qed
qed

lemma fifo_apply_counters:
  "counters_step (queue_counters (packetQueue r)) (queue_counters (packetQueue (fifo_apply env r op)))"
proof (cases op)
  case (Op_enqueue p)
  then show ?thesis
    using enqueue_counters [of "packetQueue r" p "clock env (millis_calls r)"]
    by (simp add: fifo_apply_def millis_def)
next
  case Op_dequeue
  then show ?thesis
    using loop_step_counters_step [OF dequeue_counters [of "packetQueue r" "clock env (millis_calls r)"]]
    by (simp add: fifo_apply_def millis_def)
next
  case Op_cleanExpired
  obtain q' pool' where c: "cleanExpired (packetQueue r) (clock env (millis_calls r)) (packetPool r)
                            = (q', pool')"
    by (cases "cleanExpired (packetQueue r) (clock env (millis_calls r)) (packetPool r)")
  have "counters_step (totalQueued (stats (packetQueue r)), expiredPackets (stats (packetQueue r)),
                queueOverflows (stats (packetQueue r)), length (packets (packetQueue r)))
          (queue_counters q')"
    using cleanExpired_counters [of "packetQueue r" "clock env (millis_calls r)" "packetPool r"] c
    by (intro counters_step_clean_then_loop
          [of "length (filter (expired_at (clock env (millis_calls r))
                 (packetExpirySeconds (packetQueue r))) (packets (packetQueue r)))"]) simp_all
  then show ?thesis
    using Op_cleanExpired c by (simp add: fifo_apply_def millis_def queue_counters_def)
next
  case Op_clear
  then show ?thesis
    by (auto simp: fifo_apply_def fifo_clearPacketQueue_def clear_def counters_step_def
        queue_counters_def intro: bexI [of _ 0])
next
  case Op_drain
  then show ?thesis using fifo_drain_counters [of r env] by (simp add: fifo_apply_def)
qed

lemma pq_apply_counters:
  "counters_step (queue_counters (priorityQueue r))
     (queue_counters (priorityQueue (pq_apply env r op)))"
proof (cases op)
  case (Op_enqueue p)
  then show ?thesis
    using pq_enqueue_counters [of "priorityQueue r" p "clock env (millis_calls r)"]
    by (simp add: pq_apply_def millis_def)
next
  case Op_dequeue
  then show ?thesis
    using loop_step_counters_step
            [OF pq_dequeue_counters [of "priorityQueue r" "clock env (millis_calls r)"]]
    by (simp add: pq_apply_def millis_def)
next
  case Op_cleanExpired
  obtain q' pool' where c: "pq_cleanExpired (priorityQueue r) (clock env (millis_calls r)) (packetPool r)
                            = (q', pool')"
    by (cases "pq_cleanExpired (priorityQueue r) (clock env (millis_calls r)) (packetPool r)")
  have "counters_step (totalQueued (stats (priorityQueue r)), expiredPackets (stats (priorityQueue r)),
                queueOverflows (stats (priorityQueue r)), length (packets (priorityQueue r)))
          (queue_counters q')"
    using pq_cleanExpired_counters [of "priorityQueue r" "clock env (millis_calls r)" "packetPool r"] c
    by (intro counters_step_clean_then_loop
          [of "length (filter (expired_at (clock env (millis_calls r))
                 (packetExpirySeconds (priorityQueue r))) (packets (priorityQueue r)))"]) simp_all
  then show ?thesis
    using Op_cleanExpired c by (simp add: pq_apply_def millis_def queue_counters_def)
next
  case Op_clear
  obtain rel where "pq_clear_loop (packets (priorityQueue r)) (packetPool r)
                    = ([], packetPool r @ rel)"
    using pq_clear_loop_spec [of "packets (priorityQueue r)" "packetPool r"] by blast
  then show ?thesis
    using Op_clear
    by (auto simp: pq_apply_def pq_clearPacketQueue_def pq_clear_def counters_step_def
        queue_counters_def intro: bexI [of _ 0])
next
  case Op_drain
  then show ?thesis using pq_drain_counters [of r env] by (simp add: pq_apply_def)
qed

end
